theory Spec2Isabelle
  imports Main
begin

section \<open>The watchdog of cncr\_wdg/\_watchdog.py\<close>

text \<open>
  The module defines one class, \<open>Watchdog\<close>. Its private attributes become the fields of
  a record; every method becomes a function that takes the record and returns it updated.
  A method that can raise returns a pair: the exception that propagates out of it (if any)
  and the state it leaves behind, because the attributes written before a raise stay written.

  What the module takes from its surroundings is kept apart:
  \<^item> the callables the application registers are opaque: each has the text \<open>str(func)\<close>
    that the log lines print and a behaviour on the application's own state (the world);
  \<^item> what the Python runtime decides (the number of \<open>signal.SIGABRT\<close>, the names of the
    \<open>signal.Signals\<close> enumeration, whether \<open>signal.signal\<close> accepts a call, the text of a
    formatted exception and of a list, the longest timeout a lock accepts, which signals the
    operating system delivers between two steps of the monitor thread) is a parameter of the
    model, the record \<open>runtime\<close>. No theorem below fixes it.
\<close>

subsection \<open>Values\<close>

type_synonym signum = int

text \<open>
  A raised object is an instance of \<open>Exception\<close>, which the three \<open>except Exception\<close>
  clauses catch, or of another subclass of \<open>BaseException\<close> (\<open>SystemExit\<close>,
  \<open>KeyboardInterrupt\<close>), which they let through. The text names the class.
\<close>

datatype exn = Exception string | BaseException string

fun is_Exception :: "exn \<Rightarrow> bool" where
  "is_Exception (Exception _) = True"
| "is_Exception (BaseException _) = False"

text \<open>
  What one call \<open>func()\<close> does: it returns an object, of which the module only ever reads
  the truth value (\<open>if not func()\<close>; the action loops drop it), or it raises.
\<close>

datatype outcome = Returns bool | Raises exn

record 'w callable =
  ident :: string
  run :: "'w \<Rightarrow> outcome \<times> 'w"

datatype level = WARNING | INFO | ERROR

datatype ctx = MainThread | MonitorThread

datatype site = Probe | ShutdownAction | JoinAction

text \<open>
  The observable history, in order: a record handed to the logger, a callable invoked (tagged
  with the loop that invoked it), the monitor thread going to sleep on the event with the
  given timeout, that sleep ending with the value \<open>Event.wait\<close> returns (true when the
  flag was set, false when the timeout ran out), and an exception that left a signal handler
  or the thread's target uncaught.
\<close>

datatype event =
    Log level string
  | Call site string
  | Block "int option"
  | Resume bool
  | Uncaught ctx exn

datatype thread_state = Initial | Started | Stopped

record 'w runtime =
  SIGABRT :: signum
  signal_name :: "signum \<Rightarrow> string option"
  signal_signal :: "ctx \<Rightarrow> signum \<Rightarrow> exn option"
  format_exception_only :: "exn \<Rightarrow> string list"
  repr_list :: "string list \<Rightarrow> string"
  TIMEOUT_MAX :: int
  arrive :: "'w \<Rightarrow> signum list \<times> 'w"

text \<open>
  The attributes set by \<open>__init__\<close> (lines 42 to 53), then the process's table of signal
  handlers restricted to this instance's handler, the application's world and the history.
  \<open>sleeper\<close> is the flag of the \<open>threading.Event\<close>; \<open>thread\<close> is the life cycle of the
  \<open>threading.Thread\<close>.
\<close>

record 'w watchdog =
  monitor_callables :: "'w callable list option"
  shutdown_callables :: "'w callable list option"
  join_callables :: "'w callable list option"
  monitor_delay :: int
  shutdown_signals :: "signum list"
  start_delay :: "int option"
  thread :: thread_state
  sleeper :: bool
  signal :: "signum option"
  stop :: bool
  handlers :: "signum set"
  world :: 'w
  trace :: "event list"

type_synonym 'w result = "exn option \<times> 'w watchdog"

subsection \<open>Helpers of the module\<close>

text \<open>\<open>str.strip()\<close> and \<open>str.replace("\n", " ")\<close> on ASCII text.\<close>

definition is_space :: "char \<Rightarrow> bool" where
  "is_space c = (c \<in> set [CHR 0x09, CHR 0x0A, CHR 0x0B, CHR 0x0C, CHR 0x0D,
                          CHR 0x1C, CHR 0x1D, CHR 0x1E, CHR 0x1F, CHR 0x20])"

definition strip :: "string \<Rightarrow> string" where
  "strip t = rev (dropWhile is_space (rev (dropWhile is_space t)))"

definition replace_newline :: "string \<Rightarrow> string" where
  "replace_newline t = map (\<lambda>c. if c = CHR 0x0A then CHR 0x20 else c) t"

text \<open>Lines 26 and 27.\<close>

definition get_exception_str :: "'w runtime \<Rightarrow> exn \<Rightarrow> string list" where
  "get_exception_str rt ex =
     map (\<lambda>item. replace_newline (strip item)) (format_exception_only rt ex)"

definition log_msg_prefix :: string where
  "log_msg_prefix = ''watchdog''"

definition log_err_msg_prefix :: string where
  "log_err_msg_prefix = log_msg_prefix @ '' error''"

definition logger :: "level \<Rightarrow> string \<Rightarrow> 'w watchdog \<Rightarrow> 'w watchdog" where
  "logger lv msg s = s\<lparr>trace := trace s @ [Log lv msg]\<rparr>"

fun site_word :: "site \<Rightarrow> string" where
  "site_word Probe = ''monitor''"
| "site_word ShutdownAction = ''shutdown''"
| "site_word JoinAction = ''join''"

text \<open>The message of lines 68, 84 and 115, which differ in one word.\<close>

definition failed_msg :: "'w runtime \<Rightarrow> site \<Rightarrow> exn \<Rightarrow> 'w callable \<Rightarrow> string" where
  "failed_msg rt st ex f =
     log_err_msg_prefix @ '': executing '' @ site_word st @ '' callable failed: reason=''
       @ repr_list rt (get_exception_str rt ex) @ '' callable='' @ ident f"

text \<open>One call \<open>func()\<close>: the invocation is recorded, the callable acts on the world.\<close>

definition call :: "site \<Rightarrow> 'w callable \<Rightarrow> 'w watchdog \<Rightarrow> outcome \<times> 'w watchdog" where
  "call st f s =
     (case run f (world s) of
        (out, w') \<Rightarrow> (out, s\<lparr>world := w', trace := trace s @ [Call st (ident f)]\<rparr>))"

subsection \<open>The shutdown trigger (lines 57 to 68)\<close>

text \<open>
  The loop of lines 64 to 68, and the loop of lines 111 to 115, which is the same loop with
  another word in its message: an \<open>Exception\<close> is logged and the loop goes on, anything
  else propagates.
\<close>

fun run_actions :: "'w runtime \<Rightarrow> site \<Rightarrow> 'w callable list \<Rightarrow> 'w watchdog \<Rightarrow> 'w result" where
  "run_actions rt st [] s = (None, s)"
| "run_actions rt st (f # fs) s =
     (case call st f s of
        (Returns _, s1) \<Rightarrow> run_actions rt st fs s1
      | (Raises ex, s1) \<Rightarrow>
          (if is_Exception ex
           then run_actions rt st fs (logger ERROR (failed_msg rt st ex f) s1)
           else (Some ex, s1)))"

definition caught_msg :: "string \<Rightarrow> string" where
  "caught_msg name = log_msg_prefix @ '': caught '' @ [CHR 0x27] @ name @ [CHR 0x27]"

definition handle_shutdown :: "'w runtime \<Rightarrow> signum \<Rightarrow> 'w watchdog \<Rightarrow> 'w result" where
  "handle_shutdown rt sig_num s =
     (if signal s = None then
        (let s1 = s\<lparr>signal := Some sig_num\<rparr>;
             s2 = s1\<lparr>sleeper := True\<rparr>
         in (case signal_name rt sig_num of
               None \<Rightarrow> (Some (Exception ''ValueError''), s2)
             | Some name \<Rightarrow>
                 (let s3 = logger WARNING (caught_msg name) s2
                  in (case shutdown_callables s3 of
                        Some (f # fs) \<Rightarrow>
                          run_actions rt ShutdownAction (f # fs)
                            (logger INFO (log_msg_prefix @ '': initiating shutdown ...'') s3)
                      | _ \<Rightarrow> (None, s3)))))
      else (None, s))"

text \<open>
  The operating system delivers signal \<open>num\<close> to the process. If \<open>signal.signal\<close> installed
  the handler for it, the main thread runs the handler; what the handler raises propagates
  into whatever the main thread was doing. A signal without this handler is not the
  watchdog's business. The handler is one step here: the monitor thread sees the attributes
  as they are before it or after it, never between its lines.
\<close>

definition deliver :: "'w runtime \<Rightarrow> signum \<Rightarrow> 'w watchdog \<Rightarrow> 'w watchdog" where
  "deliver rt num s =
     (if num \<in> handlers s then
        (case handle_shutdown rt num s of
           (None, s1) \<Rightarrow> s1
         | (Some ex, s1) \<Rightarrow> s1\<lparr>trace := trace s1 @ [Uncaught MainThread ex]\<rparr>)
      else s)"

text \<open>
  The signals that arrive between two steps of the monitor thread, or while it is inside a
  probe or asleep, in order.
\<close>

definition arrivals :: "'w runtime \<Rightarrow> 'w watchdog \<Rightarrow> 'w watchdog" where
  "arrivals rt s =
     (case arrive rt (world s) of
        (sigs, w') \<Rightarrow> fold (deliver rt) sigs (s\<lparr>world := w'\<rparr>))"

subsection \<open>Registration (lines 87 to 103)\<close>

fun register_shutdown_signals ::
  "'w runtime \<Rightarrow> ctx \<Rightarrow> signum list \<Rightarrow> 'w watchdog \<Rightarrow> 'w result" where
  "register_shutdown_signals rt c [] s = (None, s)"
| "register_shutdown_signals rt c (num # nums) s =
     (if num \<notin> set (shutdown_signals s) then
        (case signal_signal rt c num of
           Some ex \<Rightarrow> (Some ex, s)
         | None \<Rightarrow>
             register_shutdown_signals rt c nums
               (s\<lparr>handlers := insert num (handlers s),
                  shutdown_signals := shutdown_signals s @ [num]\<rparr>))
      else register_shutdown_signals rt c nums s)"

definition register_shutdown_callables :: "'w callable list \<Rightarrow> 'w watchdog \<Rightarrow> 'w watchdog" where
  "register_shutdown_callables callables s =
     (case shutdown_callables s of
        Some (f # fs) \<Rightarrow> s\<lparr>shutdown_callables := Some ((f # fs) @ callables)\<rparr>
      | _ \<Rightarrow> s\<lparr>shutdown_callables := Some callables\<rparr>)"

definition register_monitor_callables :: "'w callable list \<Rightarrow> 'w watchdog \<Rightarrow> 'w watchdog" where
  "register_monitor_callables callables s =
     (case monitor_callables s of
        Some (f # fs) \<Rightarrow> s\<lparr>monitor_callables := Some ((f # fs) @ callables)\<rparr>
      | _ \<Rightarrow> s\<lparr>monitor_callables := Some callables\<rparr>)"

text \<open>Lines 41 to 55. The logger argument is the history itself.\<close>

definition init ::
  "'w runtime \<Rightarrow> 'w callable list option \<Rightarrow> 'w callable list option \<Rightarrow> 'w callable list option
     \<Rightarrow> signum list option \<Rightarrow> int \<Rightarrow> 'w \<Rightarrow> 'w result" where
  "init rt mcs scs jcs sigs delay w =
     (let s = \<lparr>monitor_callables = mcs, shutdown_callables = scs, join_callables = jcs,
               monitor_delay = delay, shutdown_signals = [], start_delay = None,
               thread = Initial, sleeper = False, signal = None, stop = False,
               handlers = {}, world = w, trace = []\<rparr>
      in case sigs of
           Some (n # ns) \<Rightarrow> register_shutdown_signals rt MainThread (n # ns) s
         | _ \<Rightarrow> (None, s))"

subsection \<open>The monitor loop (lines 70 to 85)\<close>

text \<open>
  \<open>Event.wait(timeout)\<close>. With the flag set it returns at once. Otherwise a timeout that is
  not positive makes it look once without blocking (the signals delivered since the thread
  last looked have been handled by then), and a timeout above \<open>threading.TIMEOUT_MAX\<close> makes
  the lock raise \<open>OverflowError\<close>. Otherwise the thread sleeps, the signals of that period
  are delivered, and the call returns when the flag is set or the timeout has run out; which
  of the two it was is the value it returns. Without a timeout and without a signal that sets
  the flag it never returns (\<open>None\<close>).
\<close>

definition sleeper_wait :: "'w runtime \<Rightarrow> int option \<Rightarrow> 'w watchdog \<Rightarrow> 'w result option" where
  "sleeper_wait rt timeout s =
     (if sleeper s then Some (None, s)
      else (case timeout of
              None \<Rightarrow>
                (let s1 = arrivals rt (s\<lparr>trace := trace s @ [Block None]\<rparr>)
                 in if sleeper s1 then Some (None, s1\<lparr>trace := trace s1 @ [Resume True]\<rparr>)
                    else None)
            | Some t \<Rightarrow>
                (if t \<le> 0 then Some (None, arrivals rt s)
                 else if TIMEOUT_MAX rt < t then Some (Some (Exception ''OverflowError''), s)
                 else (let s1 = arrivals rt (s\<lparr>trace := trace s @ [Block (Some t)]\<rparr>)
                       in Some (None, s1\<lparr>trace := trace s1 @ [Resume (sleeper s1)]\<rparr>)))))"

text \<open>
  The \<open>for\<close> loop of lines 76 to 84. Nothing orders the handler, which the main thread
  runs, and this loop: signals may arrive after the test of line 77 and before the call of
  line 80, and while the probe runs.
\<close>

fun run_probes :: "'w runtime \<Rightarrow> 'w callable list \<Rightarrow> 'w watchdog \<Rightarrow> 'w result" where
  "run_probes rt [] s = (None, s)"
| "run_probes rt (f # fs) s =
     (if signal s \<noteq> None then (None, s)
      else case call Probe f (arrivals rt s) of
             (out, s0) \<Rightarrow>
               let s1 = arrivals rt s0
               in (case out of
                    Returns healthy \<Rightarrow>
                      (if \<not> healthy then
                         (case handle_shutdown rt (SIGABRT rt) s1 of
                            (None, s2) \<Rightarrow> (None, s2)
                          | (Some ex, s2) \<Rightarrow>
                              (if is_Exception ex
                               then run_probes rt fs
                                      (logger ERROR (failed_msg rt Probe ex f) s2)
                               else (Some ex, s2)))
                       else run_probes rt fs s1)
                  | Raises ex \<Rightarrow>
                      (if is_Exception ex
                       then run_probes rt fs (logger ERROR (failed_msg rt Probe ex f) s1)
                       else (Some ex, s1))))"

text \<open>The \<open>while\<close> loop of lines 75 to 85. It need not end, so it is a partial function.\<close>

partial_function (option) monitor_while :: "'w runtime \<Rightarrow> 'w watchdog \<Rightarrow> 'w result option" where
  "monitor_while rt s =
     (if signal s = None then
        (case monitor_callables s of
           None \<Rightarrow> Some (Some (Exception ''TypeError''), s)
         | Some fs \<Rightarrow>
             (case run_probes rt fs s of
                (Some ex, s1) \<Rightarrow> Some (Some ex, s1)
              | (None, s1) \<Rightarrow>
                  (case sleeper_wait rt (Some (monitor_delay s1)) s1 of
                     None \<Rightarrow> None
                   | Some (Some ex, s2) \<Rightarrow> Some (Some ex, s2)
                   | Some (None, s2) \<Rightarrow> monitor_while rt s2)))
      else Some (None, s))"

definition monitor :: "'w runtime \<Rightarrow> 'w watchdog \<Rightarrow> 'w result option" where
  "monitor rt s =
     (case sleeper_wait rt (start_delay s) s of
        None \<Rightarrow> None
      | Some (Some ex, s1) \<Rightarrow> Some (Some ex, s1)
      | Some (None, s1) \<Rightarrow>
          if signal s1 = None then
            (case (if SIGABRT rt \<notin> set (shutdown_signals s1)
                   then register_shutdown_signals rt MonitorThread [SIGABRT rt] s1
                   else (None, s1)) of
               (Some ex, s2) \<Rightarrow> Some (Some ex, s2)
             | (None, s2) \<Rightarrow> monitor_while rt s2)
          else Some (None, s1))"

subsection \<open>The thread, start and join (lines 50 and 105 to 116)\<close>

text \<open>
  The thread runs \<open>monitor\<close> as its target; when the target returns or raises, the thread is
  over, and what it raised is reported, not propagated.
\<close>

definition thread_run :: "'w runtime \<Rightarrow> 'w watchdog \<Rightarrow> 'w watchdog option" where
  "thread_run rt s =
     (case monitor rt s of
        None \<Rightarrow> None
      | Some (None, s1) \<Rightarrow> Some (s1\<lparr>thread := Stopped\<rparr>)
      | Some (Some ex, s1) \<Rightarrow>
          Some (s1\<lparr>thread := Stopped, trace := trace s1 @ [Uncaught MonitorThread ex]\<rparr>))"

definition start :: "int \<Rightarrow> 'w watchdog \<Rightarrow> 'w result" where
  "start delay s =
     (let s1 = s\<lparr>start_delay := Some delay\<rparr>
      in if thread s1 = Initial then (None, s1\<lparr>thread := Started\<rparr>)
         else (Some (Exception ''RuntimeError''), s1))"

text \<open>
  \<open>Thread.join()\<close> raises on a thread that was never started and otherwise returns once the
  thread is over: whatever the thread still has to do happens before the caller goes on. If
  the thread never ends, neither does the call.
\<close>

definition thread_join :: "'w runtime \<Rightarrow> 'w watchdog \<Rightarrow> 'w result option" where
  "thread_join rt s =
     (case thread s of
        Initial \<Rightarrow> Some (Some (Exception ''RuntimeError''), s)
      | Started \<Rightarrow> (case thread_run rt s of None \<Rightarrow> None | Some s1 \<Rightarrow> Some (None, s1))
      | Stopped \<Rightarrow> Some (None, s))"

definition join :: "'w runtime \<Rightarrow> 'w watchdog \<Rightarrow> 'w result option" where
  "join rt s =
     (case thread_join rt s of
        None \<Rightarrow> None
      | Some (Some ex, s1) \<Rightarrow> Some (Some ex, s1)
      | Some (None, s1) \<Rightarrow>
          (case join_callables s1 of
             None \<Rightarrow> Some (Some (Exception ''TypeError''), s1)
           | Some fs \<Rightarrow>
               (case run_actions rt JoinAction fs s1 of
                  (Some ex, s2) \<Rightarrow> Some (Some ex, s2)
                | (None, s2) \<Rightarrow>
                    Some (None, logger INFO (log_msg_prefix @ '': shutdown complete'') s2))))"

subsection \<open>Reading the history\<close>

text \<open>The callables that one loop invoked, in the order of their invocation.\<close>

fun calls_of :: "site \<Rightarrow> event list \<Rightarrow> string list" where
  "calls_of st [] = []"
| "calls_of st (Call st' i # es) = (if st' = st then i # calls_of st es else calls_of st es)"
| "calls_of st (_ # es) = calls_of st es"

text \<open>An attribute that is \<open>None\<close> or a list, read as a list.\<close>

definition the_list :: "'a list option \<Rightarrow> 'a list" where
  "the_list l = (case l of None \<Rightarrow> [] | Some xs \<Rightarrow> xs)"

text \<open>
  Two states that differ at most in the world and in the history, the later history extending
  the earlier one: what a callable, acting on the application only, can do to the watchdog.
\<close>

definition untouched :: "'w watchdog \<Rightarrow> 'w watchdog \<Rightarrow> bool" where
  "untouched s s' \<longleftrightarrow>
     monitor_callables s' = monitor_callables s \<and> shutdown_callables s' = shutdown_callables s \<and>
     join_callables s' = join_callables s \<and> monitor_delay s' = monitor_delay s \<and>
     shutdown_signals s' = shutdown_signals s \<and> start_delay s' = start_delay s \<and>
     thread s' = thread s \<and> stop s' = stop s \<and> handlers s' = handlers s \<and>
     sleeper s' = sleeper s \<and> signal s' = signal s \<and>
     (\<exists>es. trace s' = trace s @ es)"

subsection \<open>A runtime and an application to run the model on\<close>

text \<open>
  \<open>repr\<close> of a string of printable ASCII and the usual control characters: single quotes,
  unless the text has a single quote and no double quote; the quote in use and the backslash
  are escaped, and so are the control characters. \<open>str\<close> of a list joins the \<open>repr\<close> of its
  elements.
\<close>

definition hex_digit :: "nat \<Rightarrow> char" where
  "hex_digit n = ''0123456789abcdef'' ! n"

definition py_escape :: "char \<Rightarrow> char \<Rightarrow> string" where
  "py_escape q c =
     (if c = q \<or> c = CHR 0x5C then [CHR 0x5C, c]
      else if c = CHR 0x0A then [CHR 0x5C, CHR ''n'']
      else if c = CHR 0x0D then [CHR 0x5C, CHR ''r'']
      else if c = CHR 0x09 then [CHR 0x5C, CHR ''t'']
      else if (of_char c :: nat) < 32 \<or> 126 < (of_char c :: nat)
      then [CHR 0x5C, CHR ''x'', hex_digit (of_char c div 16), hex_digit (of_char c mod 16)]
      else [c])"

definition py_repr :: "string \<Rightarrow> string" where
  "py_repr t =
     (let q = (if CHR 0x27 \<in> set t \<and> CHR 0x22 \<notin> set t then CHR 0x22 else CHR 0x27)
      in [q] @ concat (map (py_escape q) t) @ [q])"

fun join_repr :: "string list \<Rightarrow> string" where
  "join_repr [] = []"
| "join_repr [x] = py_repr x"
| "join_repr (x # y # ys) = py_repr x @ '', '' @ join_repr (y # ys)"

text \<open>
  CPython on Linux: \<open>SIGABRT\<close> is 6, the enumeration names the standard signals and the two
  ends of the real-time range, \<open>signal.signal\<close> refuses a thread other than the main one,
  a number outside 1 to 64, \<open>SIGKILL\<close> and \<open>SIGSTOP\<close>, and the two numbers the C library
  keeps for itself. The application's world is a counter of the calls of the probe \<open>flaky\<close>,
  which reports unhealthy from its third call on, and the signals still to arrive, one batch
  for each moment the model lets signals in.
\<close>

type_synonym app = "nat \<times> signum list list"

definition cpython_linux :: "app runtime" where
  "cpython_linux =
     \<lparr>SIGABRT = 6,
      signal_name = map_of
        [(1, ''SIGHUP''), (2, ''SIGINT''), (3, ''SIGQUIT''), (4, ''SIGILL''), (5, ''SIGTRAP''),
         (6, ''SIGABRT''), (7, ''SIGBUS''), (8, ''SIGFPE''), (9, ''SIGKILL''), (10, ''SIGUSR1''),
         (11, ''SIGSEGV''), (12, ''SIGUSR2''), (13, ''SIGPIPE''), (14, ''SIGALRM''),
         (15, ''SIGTERM''), (16, ''SIGSTKFLT''), (17, ''SIGCHLD''), (18, ''SIGCONT''),
         (19, ''SIGSTOP''), (20, ''SIGTSTP''), (21, ''SIGTTIN''), (22, ''SIGTTOU''),
         (23, ''SIGURG''), (24, ''SIGXCPU''), (25, ''SIGXFSZ''), (26, ''SIGVTALRM''),
         (27, ''SIGPROF''), (28, ''SIGWINCH''), (29, ''SIGIO''), (30, ''SIGPWR''),
         (31, ''SIGSYS''), (34, ''SIGRTMIN''), (64, ''SIGRTMAX'')],
      signal_signal = (\<lambda>c n.
        if c = MonitorThread then Some (Exception ''ValueError'')
        else if n < 1 \<or> 64 < n then Some (Exception ''ValueError'')
        else if n = 9 \<or> n = 19 \<or> n = 32 \<or> n = 33 then Some (Exception ''OSError'')
        else None),
      format_exception_only = (\<lambda>ex. case ex of Exception t \<Rightarrow> [t @ [CHR 0x0A]]
                                              | BaseException t \<Rightarrow> [t @ [CHR 0x0A]]),
      repr_list = (\<lambda>xs. ''['' @ join_repr xs @ '']''),
      TIMEOUT_MAX = 9223372036,
      arrive = (\<lambda>(n, q). case q of [] \<Rightarrow> ([], (n, [])) | b # q' \<Rightarrow> (b, (n, q')))\<rparr>"

definition healthy :: "app callable" where
  "healthy = \<lparr>ident = ''healthy'', run = (\<lambda>w. (Returns True, w))\<rparr>"

definition flaky :: "app callable" where
  "flaky = \<lparr>ident = ''flaky'', run = (\<lambda>(n, q). (Returns (Suc n < 3), (Suc n, q)))\<rparr>"

definition faulty :: "app callable" where
  "faulty = \<lparr>ident = ''faulty'', run = (\<lambda>w. (Raises (Exception ''RuntimeError: boom''), w))\<rparr>"

definition quitter :: "app callable" where
  "quitter = \<lparr>ident = ''quitter'', run = (\<lambda>w. (Raises (BaseException ''SystemExit''), w))\<rparr>"

definition cleanup :: "app callable" where
  "cleanup = \<lparr>ident = ''cleanup'', run = (\<lambda>w. (Returns False, w))\<rparr>"

definition idle :: "app watchdog" where
  "idle = \<lparr>monitor_callables = Some [healthy, flaky],
           shutdown_callables = Some [cleanup, faulty, cleanup],
           join_callables = Some [cleanup],
           monitor_delay = 2, shutdown_signals = [15, 2, 6], start_delay = None,
           thread = Initial, sleeper = False, signal = None, stop = False,
           handlers = {15, 2, 6}, world = (0, []), trace = []\<rparr>"

definition fired :: "app watchdog" where
  "fired = idle\<lparr>sleeper := True, signal := Some 15\<rparr>"

text \<open>Whether the completion line of \<open>join\<close> is in a history.\<close>

definition completed :: "event list \<Rightarrow> bool" where
  "completed tr \<longleftrightarrow> Log INFO (log_msg_prefix @ '': shutdown complete'') \<in> set tr"

text \<open>
  What a call of the trigger, or a delivery of signals, can do to a state: nothing at all once
  a cause is recorded; otherwise, if it records one, it sets the flag too. It never touches
  the registered callables, signals and handlers, and invokes no probe and no join action.
\<close>

definition fires :: "'w watchdog \<Rightarrow> 'w watchdog \<Rightarrow> bool" where
  "fires s s' \<longleftrightarrow>
     monitor_callables s' = monitor_callables s \<and> shutdown_callables s' = shutdown_callables s \<and>
     join_callables s' = join_callables s \<and> monitor_delay s' = monitor_delay s \<and>
     shutdown_signals s' = shutdown_signals s \<and> start_delay s' = start_delay s \<and>
     thread s' = thread s \<and> stop s' = stop s \<and> handlers s' = handlers s \<and>
     (signal s \<noteq> None \<longrightarrow> signal s' = signal s \<and> sleeper s' = sleeper s \<and> trace s' = trace s) \<and>
     (signal s' = None \<longrightarrow> signal s = None \<and> sleeper s' = sleeper s \<and> trace s' = trace s) \<and>
     (signal s = None \<and> signal s' \<noteq> None \<longrightarrow> sleeper s') \<and>
     calls_of Probe (trace s') = calls_of Probe (trace s) \<and>
     calls_of JoinAction (trace s') = calls_of JoinAction (trace s) \<and>
     completed (trace s') = completed (trace s) \<and>
     (\<exists>es. trace s' = trace s @ es)"

text \<open>
  What the monitor loop can do to a state: it keeps a recorded cause and a set flag, keeps the
  flag in step with the cause, and runs no shutdown action as long as no cause is recorded.
\<close>

definition polls :: "'w watchdog \<Rightarrow> 'w watchdog \<Rightarrow> bool" where
  "polls s s' \<longleftrightarrow>
     monitor_callables s' = monitor_callables s \<and> shutdown_callables s' = shutdown_callables s \<and>
     join_callables s' = join_callables s \<and> monitor_delay s' = monitor_delay s \<and>
     shutdown_signals s' = shutdown_signals s \<and> start_delay s' = start_delay s \<and>
     thread s' = thread s \<and> stop s' = stop s \<and> handlers s' = handlers s \<and>
     (signal s \<noteq> None \<longrightarrow> signal s' = signal s) \<and>
     (sleeper s \<longrightarrow> sleeper s') \<and>
     ((signal s \<noteq> None \<longrightarrow> sleeper s) \<longrightarrow> (signal s' \<noteq> None \<longrightarrow> sleeper s')) \<and>
     (signal s' = None \<longrightarrow>
        calls_of ShutdownAction (trace s') = calls_of ShutdownAction (trace s)) \<and>
     calls_of JoinAction (trace s') = calls_of JoinAction (trace s) \<and>
     completed (trace s') = completed (trace s) \<and>
     (\<exists>es. trace s' = trace s @ es)"

definition polling :: "app watchdog" where
  "polling = idle\<lparr>start_delay := Some 5, thread := Started, world := (2, [])\<rparr>"

definition halted :: "app watchdog" where
  "halted = fired\<lparr>thread := Stopped, join_callables := Some [cleanup, faulty, cleanup]\<rparr>"

text \<open>The first shutdown action has run after \<open>SIGTERM\<close>; the second is about to.\<close>

definition alerted :: "app watchdog" where
  "alerted = idle\<lparr>sleeper := True, signal := Some 15,
     trace := [Log WARNING (caught_msg ''SIGTERM''),
               Log INFO (log_msg_prefix @ '': initiating shutdown ...''),
               Call ShutdownAction ''cleanup'']\<rparr>"

text \<open>
  Two rounds over a probe that raises, then \<open>SIGTERM\<close> during the second wait. Each probe
  has two moments at which signals are let in, each wait one.
\<close>

definition wobbly :: "app watchdog" where
  "wobbly = polling\<lparr>monitor_callables := Some [healthy, faulty, healthy],
     world := (0, [[], [], [], [], [], [], [], [], [], [], [], [], [], [15]])\<rparr>"

text \<open>\<open>SIGTERM\<close> arrives after the test of line 77 and before the first probe is called.\<close>

definition racing :: "app watchdog" where
  "racing = polling\<lparr>world := (0, [[15]])\<rparr>"

text \<open>Asleep in the start delay when three signals arrive, the first of them not handled.\<close>

definition asleep :: "app watchdog" where
  "asleep = idle\<lparr>start_delay := Some 5, thread := Started, world := (0, [[10, 15, 2]])\<rparr>"

text \<open>As \<open>asleep\<close>, constructed without join actions.\<close>

definition unjoined :: "app watchdog" where
  "unjoined = asleep\<lparr>join_callables := None\<rparr>"

section \<open>Properties\<close>

subsection \<open>The action loop and the trigger\<close>

lemma calls_of_append: "calls_of st (xs @ ys) = calls_of st xs @ calls_of st ys"
  by (induction st xs rule: calls_of.induct) auto

lemma untouched_refl: "untouched s s"
  by (simp add: untouched_def)

lemma untouched_trans: "untouched s t \<Longrightarrow> untouched t u \<Longrightarrow> untouched s u"
  by (auto simp: untouched_def)

lemma untouched_call: "call st f s = (out, s') \<Longrightarrow> untouched s s'"
  by (auto simp: call_def untouched_def split: prod.splits)

lemma untouched_logger: "untouched s (logger lv m s)"
  by (simp add: untouched_def logger_def)

lemma untouched_run_actions: "run_actions rt st fs s = (r, s') \<Longrightarrow> untouched s s'"
proof (induction fs arbitrary: s)
  case Nil
  then show ?case by (simp add: untouched_refl)
next
  case (Cons f fs)
  obtain out s1 where c: "call st f s = (out, s1)" by (cases "call st f s")
  have u1: "untouched s s1" using c by (rule untouched_call)
  show ?case
  proof (cases out)
    case (Returns b)
    with Cons.prems c have "run_actions rt st fs s1 = (r, s')" by simp
    then show ?thesis using Cons.IH u1 untouched_trans by blast
  next
    case (Raises ex)
    show ?thesis
    proof (cases "is_Exception ex")
      case True
      with Cons.prems c Raises
      have "run_actions rt st fs (logger ERROR (failed_msg rt st ex f) s1) = (r, s')" by simp
      then have "untouched (logger ERROR (failed_msg rt st ex f) s1) s'" by (rule Cons.IH)
      then show ?thesis using u1 untouched_logger untouched_trans by blast
    next
      case False
      with Cons.prems c Raises have "s' = s1" by simp
      then show ?thesis using u1 by simp
    qed
  qed
qed

lemma run_actions_calls:
  "\<exists>k. calls_of st (trace (snd (run_actions rt st fs s))) = calls_of st (trace s) @ take k (map ident fs)"
proof (induction fs arbitrary: s)
  case Nil
  then show ?case by simp
next
  case (Cons f fs)
  obtain out s1 where c: "call st f s = (out, s1)" by (cases "call st f s")
  then have t1: "trace s1 = trace s @ [Call st (ident f)]"
    by (auto simp: call_def split: prod.splits)
  show ?case
  proof (cases out)
    case (Returns b)
    from Cons.IH[of s1] obtain k where
      "calls_of st (trace (snd (run_actions rt st fs s1))) = calls_of st (trace s1) @ take k (map ident fs)" ..
    then have "calls_of st (trace (snd (run_actions rt st (f # fs) s)))
        = calls_of st (trace s) @ take (Suc k) (map ident (f # fs))"
      using c Returns t1 by (simp add: calls_of_append)
    then show ?thesis ..
  next
    case (Raises ex)
    show ?thesis
    proof (cases "is_Exception ex")
      case True
      let ?s2 = "logger ERROR (failed_msg rt st ex f) s1"
      from Cons.IH[of ?s2] obtain k where
        "calls_of st (trace (snd (run_actions rt st fs ?s2))) = calls_of st (trace ?s2) @ take k (map ident fs)" ..
      then have "calls_of st (trace (snd (run_actions rt st (f # fs) s)))
          = calls_of st (trace s) @ take (Suc k) (map ident (f # fs))"
        using c Raises True t1 by (simp add: calls_of_append logger_def)
      then show ?thesis ..
    next
      case False
      then have "calls_of st (trace (snd (run_actions rt st (f # fs) s)))
          = calls_of st (trace s) @ take (Suc 0) (map ident (f # fs))"
        using c Raises t1 by (simp add: calls_of_append)
      then show ?thesis ..
    qed
  qed
qed

lemma handle_shutdown_triggered: "signal s \<noteq> None \<Longrightarrow> handle_shutdown rt c s = (None, s)"
  by (auto simp add: handle_shutdown_def)

lemma shutdown_callables_logger [simp]: "shutdown_callables (logger lv m s) = shutdown_callables s"
  by (simp add: logger_def)

lemma handle_shutdown_fresh:
  "signal s = None \<Longrightarrow>
   handle_shutdown rt c s =
     (case signal_name rt c of
        None \<Rightarrow> (Some (Exception ''ValueError''), s\<lparr>signal := Some c, sleeper := True\<rparr>)
      | Some name \<Rightarrow>
          (case shutdown_callables s of
             Some (f # fs) \<Rightarrow>
               run_actions rt ShutdownAction (f # fs)
                 (logger INFO (log_msg_prefix @ '': initiating shutdown ...'')
                    (logger WARNING (caught_msg name) (s\<lparr>signal := Some c, sleeper := True\<rparr>)))
           | _ \<Rightarrow> (None, logger WARNING (caught_msg name) (s\<lparr>signal := Some c, sleeper := True\<rparr>))))"
  unfolding handle_shutdown_def Let_def by (simp split: option.splits)

lemma handle_shutdown_sets:
  assumes "signal s = None"
  shows "signal (snd (handle_shutdown rt c s)) = Some c \<and> sleeper (snd (handle_shutdown rt c s))"
proof -
  have a: "\<And>fs t. signal t = Some c \<Longrightarrow> sleeper t \<Longrightarrow>
       signal (snd (run_actions rt ShutdownAction fs t)) = Some c \<and>
       sleeper (snd (run_actions rt ShutdownAction fs t))"
  proof -
    fix fs and t :: "'a watchdog"
    assume t: "signal t = Some c" "sleeper t"
    have "untouched t (snd (run_actions rt ShutdownAction fs t))"
      by (rule untouched_run_actions[of rt ShutdownAction fs t "fst (run_actions rt ShutdownAction fs t)"]) simp
    then show "signal (snd (run_actions rt ShutdownAction fs t)) = Some c \<and>
       sleeper (snd (run_actions rt ShutdownAction fs t))"
      using t by (simp add: untouched_def)
  qed
  have b: "\<And>lv m lv' m'. signal (logger lv m (logger lv' m' (s\<lparr>signal := Some c, sleeper := True\<rparr>))) = Some c"
          "\<And>lv m lv' m'. sleeper (logger lv m (logger lv' m' (s\<lparr>signal := Some c, sleeper := True\<rparr>)))"
          "\<And>lv m. signal (logger lv m (s\<lparr>signal := Some c, sleeper := True\<rparr>)) = Some c"
          "\<And>lv m. sleeper (logger lv m (s\<lparr>signal := Some c, sleeper := True\<rparr>))"
    by (simp_all add: logger_def)
  show ?thesis
    unfolding handle_shutdown_fresh[OF assms]
    by (simp add: a b del: run_actions.simps split: option.splits list.splits)
qed

lemma handle_shutdown_calls:
  "\<exists>k. calls_of ShutdownAction (trace (snd (handle_shutdown rt c s))) =
        calls_of ShutdownAction (trace s) @ take k (map ident (the_list (shutdown_callables s)))"
proof (cases "signal s = None")
  case False
  then have "handle_shutdown rt c s = (None, s)" by (rule handle_shutdown_triggered)
  then have "calls_of ShutdownAction (trace (snd (handle_shutdown rt c s))) =
        calls_of ShutdownAction (trace s) @ take 0 (map ident (the_list (shutdown_callables s)))"
    by simp
  then show ?thesis ..
next
  case True
  have z: "\<And>t. trace t = trace s @ [] \<or> (\<exists>lv m. trace t = trace s @ [Log lv m]) \<Longrightarrow>
     calls_of ShutdownAction (trace t) =
        calls_of ShutdownAction (trace s) @ take 0 (map ident (the_list (shutdown_callables s)))"
    by (auto simp: calls_of_append)
  show ?thesis
  proof (cases "signal_name rt c")
    case None
    then have "calls_of ShutdownAction (trace (snd (handle_shutdown rt c s))) =
        calls_of ShutdownAction (trace s) @ take 0 (map ident (the_list (shutdown_callables s)))"
      by (simp add: handle_shutdown_fresh[OF True])
    then show ?thesis ..
  next
    case (Some name)
    note nm = this
    let ?s3 = "logger WARNING (caught_msg name) (s\<lparr>signal := Some c, sleeper := True\<rparr>)"
    have t3: "calls_of ShutdownAction (trace ?s3) = calls_of ShutdownAction (trace s)"
      by (simp add: logger_def calls_of_append)
    show ?thesis
    proof (cases "\<exists>f fs. shutdown_callables s = Some (f # fs)")
      case False
      then have "handle_shutdown rt c s = (None, ?s3)"
        using nm by (simp add: handle_shutdown_fresh[OF True] split: option.splits list.splits)
      then have "calls_of ShutdownAction (trace (snd (handle_shutdown rt c s))) =
        calls_of ShutdownAction (trace s) @ take 0 (map ident (the_list (shutdown_callables s)))"
        using t3 by simp
      then show ?thesis ..
    next
      case True
      then obtain f fs where sc: "shutdown_callables s = Some (f # fs)" by blast
      let ?s4 = "logger INFO (log_msg_prefix @ '': initiating shutdown ...'') ?s3"
      have h: "handle_shutdown rt c s = run_actions rt ShutdownAction (f # fs) ?s4"
        using nm sc by (simp add: handle_shutdown_fresh[OF \<open>signal s = None\<close>] del: run_actions.simps)
      have t4: "calls_of ShutdownAction (trace ?s4) = calls_of ShutdownAction (trace s)"
        by (simp add: logger_def calls_of_append)
      from run_actions_calls[of ShutdownAction rt "f # fs" ?s4]
      obtain k where "calls_of ShutdownAction (trace (snd (run_actions rt ShutdownAction (f # fs) ?s4)))
          = calls_of ShutdownAction (trace ?s4) @ take k (map ident (f # fs))" ..
      then have "calls_of ShutdownAction (trace (snd (handle_shutdown rt c s))) =
        calls_of ShutdownAction (trace s) @ take k (map ident (the_list (shutdown_callables s)))"
        using h t4 sc by (simp add: the_list_def del: run_actions.simps)
      then show ?thesis ..
    qed
  qed
qed

lemma fold_handle_triggered:
  "signal s \<noteq> None \<Longrightarrow> fold (\<lambda>c t. snd (handle_shutdown rt c t)) cs s = s"
  by (induction cs) (simp_all add: handle_shutdown_triggered)

text \<open>
  Claim C2. Once a cause is recorded, a further call of the trigger with any cause changes
  nothing: it returns the state as it was, so the cause stays and no shutdown action runs
  again. A call on a state without a cause records its own cause. Hence over any sequence of
  calls only the first can have an effect, and the shutdown actions invoked over the whole
  sequence are an initial part of the registered list, each entry taken at most once.
\<close>

theorem handle_shutdown_at_most_once:
  "(signal s \<noteq> None \<longrightarrow> handle_shutdown rt cause s = (None, s)) \<and>
   (signal s = None \<longrightarrow> signal (snd (handle_shutdown rt cause s)) = Some cause) \<and>
   fold (\<lambda>c t. snd (handle_shutdown rt c t)) (cause # causes) s = snd (handle_shutdown rt cause s) \<and>
   (\<exists>k. calls_of ShutdownAction (trace (fold (\<lambda>c t. snd (handle_shutdown rt c t)) (cause # causes) s)) =
         calls_of ShutdownAction (trace s) @ take k (map ident (the_list (shutdown_callables s))))"
proof -
  have 1: "signal s \<noteq> None \<longrightarrow> handle_shutdown rt cause s = (None, s)"
    by (simp add: handle_shutdown_triggered)
  have 2: "signal s = None \<longrightarrow> signal (snd (handle_shutdown rt cause s)) = Some cause"
    using handle_shutdown_sets by blast
  have "signal (snd (handle_shutdown rt cause s)) \<noteq> None"
  proof (cases "signal s = None")
    case True
    then show ?thesis using handle_shutdown_sets[of s rt cause] by simp
  next
    case False
    then show ?thesis by (simp add: handle_shutdown_triggered)
  qed
  then have 3: "fold (\<lambda>c t. snd (handle_shutdown rt c t)) (cause # causes) s = snd (handle_shutdown rt cause s)"
    by (simp add: fold_handle_triggered)
  show ?thesis using 1 2 3 handle_shutdown_calls[of rt cause s] by simp
qed

theorem handle_shutdown_at_most_once_witness:
  "signal fired \<noteq> None \<and> handle_shutdown cpython_linux 2 fired = (None, fired) \<and>
   signal idle = None \<and> signal (snd (handle_shutdown cpython_linux 15 idle)) = Some 15 \<and>
   fold (\<lambda>c t. snd (handle_shutdown cpython_linux c t)) [15, 2, 6] idle =
     snd (handle_shutdown cpython_linux 15 idle) \<and>
   calls_of ShutdownAction (trace (fold (\<lambda>c t. snd (handle_shutdown cpython_linux c t)) [15, 2, 6] idle)) =
     [''cleanup'', ''faulty'', ''cleanup'']"
proof -
  have a: "signal fired \<noteq> None" by (simp add: fired_def idle_def)
  have b: "signal idle = None" by (simp add: idle_def)
  have c: "calls_of ShutdownAction (trace (snd (handle_shutdown cpython_linux 15 idle))) =
     [''cleanup'', ''faulty'', ''cleanup'']"
    by (simp add: handle_shutdown_def idle_def cpython_linux_def logger_def call_def
        cleanup_def faulty_def Let_def)
  show ?thesis
    using a b c handle_shutdown_at_most_once[of fired cpython_linux 2 "[]"]
      handle_shutdown_at_most_once[of idle cpython_linux 15 "[2, 6]"]
    by simp
qed

subsection \<open>Registration of shutdown signals\<close>

lemma reg_noop:
  "set nums \<subseteq> set (shutdown_signals s) \<Longrightarrow> register_shutdown_signals rt c nums s = (None, s)"
  by (induction nums arbitrary: s) auto

lemma reg_frame:
  "register_shutdown_signals rt c nums s = (r, s') \<Longrightarrow>
   s'\<lparr>handlers := handlers s, shutdown_signals := shutdown_signals s\<rparr> = s"
proof (induction nums arbitrary: s)
  case Nil
  then show ?case by auto
next
  case (Cons n ns)
  show ?case
  proof (cases "n \<in> set (shutdown_signals s)")
    case True
    then show ?thesis using Cons.IH[of s] Cons.prems by simp
  next
    case False
    show ?thesis
    proof (cases "signal_signal rt c n")
      case (Some ex)
      then show ?thesis using False Cons.prems by auto
    next
      case None
      let ?s1 = "s\<lparr>handlers := insert n (handlers s), shutdown_signals := shutdown_signals s @ [n]\<rparr>"
      have "register_shutdown_signals rt c ns ?s1 = (r, s')" using False None Cons.prems by simp
      then have "s'\<lparr>handlers := handlers ?s1, shutdown_signals := shutdown_signals ?s1\<rparr> = ?s1"
        by (rule Cons.IH)
      then have "(s'\<lparr>handlers := handlers ?s1, shutdown_signals := shutdown_signals ?s1\<rparr>)
                   \<lparr>handlers := handlers s, shutdown_signals := shutdown_signals s\<rparr> =
                 ?s1\<lparr>handlers := handlers s, shutdown_signals := shutdown_signals s\<rparr>"
        by simp
      then show ?thesis by simp
    qed
  qed
qed

lemma reg_added:
  "register_shutdown_signals rt c nums s = (None, s') \<Longrightarrow>
   (\<exists>new. shutdown_signals s' = shutdown_signals s @ new \<and> distinct new \<and>
          set new = set nums - set (shutdown_signals s)) \<and>
   handlers s' = handlers s \<union> (set nums - set (shutdown_signals s)) \<and>
   (\<forall>n \<in> set nums - set (shutdown_signals s). signal_signal rt c n = None)"
proof (induction nums arbitrary: s)
  case Nil
  then show ?case by auto
next
  case (Cons n ns)
  show ?case
  proof (cases "n \<in> set (shutdown_signals s)")
    case True
    then have "register_shutdown_signals rt c ns s = (None, s')" using Cons.prems by simp
    from Cons.IH[OF this] True show ?thesis by auto
  next
    case False
    show ?thesis
    proof (cases "signal_signal rt c n")
      case (Some ex)
      then show ?thesis using False Cons.prems by simp
    next
      case None
      let ?s1 = "s\<lparr>handlers := insert n (handlers s), shutdown_signals := shutdown_signals s @ [n]\<rparr>"
      have r: "register_shutdown_signals rt c ns ?s1 = (None, s')" using False None Cons.prems by simp
      from Cons.IH[OF r] obtain new where
        n1: "shutdown_signals s' = shutdown_signals ?s1 @ new" and n2: "distinct new"
        and n3: "set new = set ns - set (shutdown_signals ?s1)"
        and h: "handlers s' = handlers ?s1 \<union> (set ns - set (shutdown_signals ?s1))"
        and a: "\<forall>m \<in> set ns - set (shutdown_signals ?s1). signal_signal rt c m = None"
        by blast
      have "shutdown_signals s' = shutdown_signals s @ (n # new)" using n1 by simp
      moreover have "distinct (n # new)" using n2 n3 by simp
      moreover have "set (n # new) = set (n # ns) - set (shutdown_signals s)"
        using n3 False by auto
      moreover have "handlers s' = handlers s \<union> (set (n # ns) - set (shutdown_signals s))"
        using h False by auto
      moreover have "\<forall>m \<in> set (n # ns) - set (shutdown_signals s). signal_signal rt c m = None"
        using a None by auto
      ultimately show ?thesis by blast
    qed
  qed
qed

lemma reg_accepted:
  "\<forall>n \<in> set nums. n \<notin> set (shutdown_signals s) \<longrightarrow> signal_signal rt c n = None \<Longrightarrow>
   fst (register_shutdown_signals rt c nums s) = None"
proof (induction nums arbitrary: s)
  case Nil
  then show ?case by simp
next
  case (Cons n ns)
  show ?case
  proof (cases "n \<in> set (shutdown_signals s)")
    case True
    then show ?thesis using Cons.IH[of s] Cons.prems by simp
  next
    case False
    let ?s1 = "s\<lparr>handlers := insert n (handlers s), shutdown_signals := shutdown_signals s @ [n]\<rparr>"
    have ok: "signal_signal rt c n = None" using False Cons.prems by simp
    have "fst (register_shutdown_signals rt c ns ?s1) = None"
      by (rule Cons.IH) (use Cons.prems in auto)
    then show ?thesis using False ok by simp
  qed
qed

lemma reg_refused:
  "register_shutdown_signals rt c nums s = (Some ex, s') \<Longrightarrow>
   \<exists>pre n post. nums = pre @ n # post \<and> register_shutdown_signals rt c pre s = (None, s') \<and>
      n \<notin> set (shutdown_signals s') \<and> signal_signal rt c n = Some ex"
proof (induction nums arbitrary: s)
  case Nil
  then show ?case by simp
next
  case (Cons m ns)
  show ?case
  proof (cases "m \<in> set (shutdown_signals s)")
    case True
    then have "register_shutdown_signals rt c ns s = (Some ex, s')" using Cons.prems by simp
    from Cons.IH[OF this] obtain pre n post where
      p: "ns = pre @ n # post" "register_shutdown_signals rt c pre s = (None, s')"
         "n \<notin> set (shutdown_signals s')" "signal_signal rt c n = Some ex" by blast
    have "m # ns = (m # pre) @ n # post" using p(1) by simp
    moreover have "register_shutdown_signals rt c (m # pre) s = (None, s')" using True p(2) by simp
    ultimately show ?thesis using p(3,4) by blast
  next
    case False
    show ?thesis
    proof (cases "signal_signal rt c m")
      case (Some e)
      then have "s' = s" "e = ex" using False Cons.prems by simp_all
      then have "m # ns = [] @ m # ns \<and> register_shutdown_signals rt c [] s = (None, s') \<and>
        m \<notin> set (shutdown_signals s') \<and> signal_signal rt c m = Some ex"
        using False Some by simp
      then show ?thesis by blast
    next
      case None
      let ?s1 = "s\<lparr>handlers := insert m (handlers s), shutdown_signals := shutdown_signals s @ [m]\<rparr>"
      have "register_shutdown_signals rt c ns ?s1 = (Some ex, s')" using False None Cons.prems by simp
      from Cons.IH[OF this] obtain pre n post where
        p: "ns = pre @ n # post" "register_shutdown_signals rt c pre ?s1 = (None, s')"
           "n \<notin> set (shutdown_signals s')" "signal_signal rt c n = Some ex" by blast
      have "m # ns = (m # pre) @ n # post" using p(1) by simp
      moreover have "register_shutdown_signals rt c (m # pre) s = (None, s')"
        using False None p(2) by simp
      ultimately show ?thesis using p(3,4) by blast
    qed
  qed
qed

text \<open>
  Claim C9, as stated, fails: \<open>signal.signal\<close> refuses some identifiers. Registering
  \<open>SIGKILL\<close>, which is not in the list, raises \<open>OSError\<close> at line 90; line 91 is not
  reached, so the identifier is not added and no handler is installed.
\<close>

theorem register_shutdown_signals_refused:
  "9 \<notin> set (shutdown_signals idle) \<and>
   register_shutdown_signals cpython_linux MainThread [9] idle = (Some (Exception ''OSError''), idle) \<and>
   9 \<notin> set (shutdown_signals (snd (register_shutdown_signals cpython_linux MainThread [9] idle))) \<and>
   9 \<notin> handlers (snd (register_shutdown_signals cpython_linux MainThread [9] idle))"
  by (simp add: idle_def cpython_linux_def)

text \<open>
  Claim C9, amended. Registering identifiers that are all in the list already changes
  nothing. When a registration returns, the list is the old list followed by the identifiers
  that were not in it, each once; exactly these got the handler installed, and
  \<open>signal.signal\<close> accepted each of them; no other attribute changed; registering the same
  identifiers again changes nothing. A registration returns whenever \<open>signal.signal\<close>
  accepts every identifier that is not in the list yet. When it raises instead, it does so at
  the first identifier that \<open>signal.signal\<close> refuses: what \<open>signal.signal\<close> raised
  propagates, the identifiers before that one are registered as above, and that one is not
  added.
\<close>

theorem register_shutdown_signals_idempotent:
  "(set nums \<subseteq> set (shutdown_signals s) \<longrightarrow> register_shutdown_signals rt c nums s = (None, s)) \<and>
   (register_shutdown_signals rt c nums s = (None, s') \<longrightarrow>
      (\<exists>new. shutdown_signals s' = shutdown_signals s @ new \<and> distinct new \<and>
             set new = set nums - set (shutdown_signals s)) \<and>
      handlers s' = handlers s \<union> (set nums - set (shutdown_signals s)) \<and>
      (\<forall>n \<in> set nums - set (shutdown_signals s). signal_signal rt c n = None) \<and>
      s'\<lparr>handlers := handlers s, shutdown_signals := shutdown_signals s\<rparr> = s \<and>
      register_shutdown_signals rt c nums s' = (None, s')) \<and>
   ((\<forall>n \<in> set nums. n \<notin> set (shutdown_signals s) \<longrightarrow> signal_signal rt c n = None) \<longrightarrow>
      fst (register_shutdown_signals rt c nums s) = None) \<and>
   (register_shutdown_signals rt c nums s = (Some ex, s') \<longrightarrow>
      (\<exists>pre n post. nums = pre @ n # post \<and>
         register_shutdown_signals rt c pre s = (None, s') \<and>
         n \<notin> set (shutdown_signals s') \<and> signal_signal rt c n = Some ex))"
proof -
  have 1: "set nums \<subseteq> set (shutdown_signals s) \<longrightarrow> register_shutdown_signals rt c nums s = (None, s)"
    by (simp add: reg_noop)
  have 2: "register_shutdown_signals rt c nums s = (None, s') \<longrightarrow>
      (\<exists>new. shutdown_signals s' = shutdown_signals s @ new \<and> distinct new \<and>
             set new = set nums - set (shutdown_signals s)) \<and>
      handlers s' = handlers s \<union> (set nums - set (shutdown_signals s)) \<and>
      (\<forall>n \<in> set nums - set (shutdown_signals s). signal_signal rt c n = None) \<and>
      s'\<lparr>handlers := handlers s, shutdown_signals := shutdown_signals s\<rparr> = s \<and>
      register_shutdown_signals rt c nums s' = (None, s')"
  proof
    assume r: "register_shutdown_signals rt c nums s = (None, s')"
    note a = reg_added[OF r]
    then obtain new where "shutdown_signals s' = shutdown_signals s @ new"
      "set new = set nums - set (shutdown_signals s)" by blast
    then have "set nums \<subseteq> set (shutdown_signals s')" by auto
    then have "register_shutdown_signals rt c nums s' = (None, s')" by (rule reg_noop)
    then show "(\<exists>new. shutdown_signals s' = shutdown_signals s @ new \<and> distinct new \<and>
             set new = set nums - set (shutdown_signals s)) \<and>
      handlers s' = handlers s \<union> (set nums - set (shutdown_signals s)) \<and>
      (\<forall>n \<in> set nums - set (shutdown_signals s). signal_signal rt c n = None) \<and>
      s'\<lparr>handlers := handlers s, shutdown_signals := shutdown_signals s\<rparr> = s \<and>
      register_shutdown_signals rt c nums s' = (None, s')"
      using a reg_frame[OF r] by blast
  qed
  have 3: "(\<forall>n \<in> set nums. n \<notin> set (shutdown_signals s) \<longrightarrow> signal_signal rt c n = None) \<longrightarrow>
      fst (register_shutdown_signals rt c nums s) = None"
    using reg_accepted by blast
  have 4: "register_shutdown_signals rt c nums s = (Some ex, s') \<longrightarrow>
      (\<exists>pre n post. nums = pre @ n # post \<and>
         register_shutdown_signals rt c pre s = (None, s') \<and>
         n \<notin> set (shutdown_signals s') \<and> signal_signal rt c n = Some ex)"
    using reg_refused by blast
  show ?thesis using 1 2 3 4 by blast
qed

theorem register_shutdown_signals_idempotent_witness:
  "set [15, 6] \<subseteq> set (shutdown_signals idle) \<and>
   register_shutdown_signals cpython_linux MainThread [15, 6] idle = (None, idle) \<and>
   register_shutdown_signals cpython_linux MainThread [1, 15, 1, 10] idle =
     (None, idle\<lparr>handlers := {15, 2, 6, 1, 10}, shutdown_signals := [15, 2, 6, 1, 10]\<rparr>) \<and>
   (\<exists>new. shutdown_signals (idle\<lparr>handlers := {15, 2, 6, 1, 10}, shutdown_signals := [15, 2, 6, 1, 10]\<rparr>)
            = shutdown_signals idle @ new \<and> distinct new \<and>
          set new = set [1, 15, 1, 10] - set (shutdown_signals idle)) \<and>
   handlers (idle\<lparr>handlers := {15, 2, 6, 1, 10}, shutdown_signals := [15, 2, 6, 1, 10]\<rparr>) =
     handlers idle \<union> (set [1, 15, 1, 10] - set (shutdown_signals idle)) \<and>
   register_shutdown_signals cpython_linux MainThread [1, 15, 1, 10]
       (idle\<lparr>handlers := {15, 2, 6, 1, 10}, shutdown_signals := [15, 2, 6, 1, 10]\<rparr>) =
     (None, idle\<lparr>handlers := {15, 2, 6, 1, 10}, shutdown_signals := [15, 2, 6, 1, 10]\<rparr>) \<and>
   fst (register_shutdown_signals cpython_linux MainThread [1, 15, 1, 10] idle) = None \<and>
   register_shutdown_signals cpython_linux MainThread [1, 9, 10] idle =
     (Some (Exception ''OSError''),
      idle\<lparr>handlers := {15, 2, 6, 1}, shutdown_signals := [15, 2, 6, 1]\<rparr>) \<and>
   (\<exists>pre n post. [1, 9, 10] = pre @ n # post \<and>
      register_shutdown_signals cpython_linux MainThread pre idle =
        (None, idle\<lparr>handlers := {15, 2, 6, 1}, shutdown_signals := [15, 2, 6, 1]\<rparr>) \<and>
      n \<notin> set (shutdown_signals (idle\<lparr>handlers := {15, 2, 6, 1}, shutdown_signals := [15, 2, 6, 1]\<rparr>)) \<and>
      signal_signal cpython_linux MainThread n = Some (Exception ''OSError''))"
proof -
  let ?s1 = "idle\<lparr>handlers := {15, 2, 6, 1, 10}, shutdown_signals := [15, 2, 6, 1, 10]\<rparr>"
  let ?s2 = "idle\<lparr>handlers := {15, 2, 6, 1}, shutdown_signals := [15, 2, 6, 1]\<rparr>"
  have a: "set [15, 6] \<subseteq> set (shutdown_signals idle)" by (simp add: idle_def)
  have h1: "insert 10 (insert 1 {15, 2, 6}) = {15, 2, 6, 1, (10::int)}" by auto
  have h2: "insert 1 {15, 2, 6} = {15, 2, 6, (1::int)}" by auto
  have b: "register_shutdown_signals cpython_linux MainThread [1, 15, 1, 10] idle = (None, ?s1)"
    by (simp add: idle_def cpython_linux_def h1)
  have c: "\<forall>n \<in> set [1, 15, 1, 10]. n \<notin> set (shutdown_signals idle) \<longrightarrow>
             signal_signal cpython_linux MainThread n = None"
    by (simp add: idle_def cpython_linux_def)
  have d: "register_shutdown_signals cpython_linux MainThread [1, 9, 10] idle =
             (Some (Exception ''OSError''), ?s2)"
    by (simp add: idle_def cpython_linux_def h2)
  note w1 = register_shutdown_signals_idempotent[of "[15, 6]" idle cpython_linux MainThread,
      THEN conjunct1, THEN mp, OF a]
  note w2 = register_shutdown_signals_idempotent[of "[1, 15, 1, 10]" idle cpython_linux MainThread ?s1,
      THEN conjunct2, THEN conjunct1, THEN mp, OF b]
  note w3 = register_shutdown_signals_idempotent[of "[1, 15, 1, 10]" idle cpython_linux MainThread,
      THEN conjunct2, THEN conjunct2, THEN conjunct1, THEN mp, OF c]
  note w4 = register_shutdown_signals_idempotent[of "[1, 9, 10]" idle cpython_linux MainThread ?s2
        "Exception ''OSError''", THEN conjunct2, THEN conjunct2, THEN conjunct2, THEN mp, OF d]
  show ?thesis
    using a b d w1 w2 w3 w4
    apply (elim conjE)
    apply (intro conjI)
            apply assumption+
    done
qed

subsection \<open>Effects of the trigger and of the monitor loop\<close>

lemma fires_refl: "fires s s"
  by (auto simp add: fires_def)

lemma fires_trans: "fires s t \<Longrightarrow> fires t u \<Longrightarrow> fires s u"
  by (cases "signal t"; cases "signal s"; cases "signal u") (auto simp: fires_def)

lemma polls_refl: "polls s s"
  by (auto simp add: polls_def)

lemma polls_trans: "polls s t \<Longrightarrow> polls t u \<Longrightarrow> polls s u"
  by (cases "signal t"; cases "signal s"; cases "signal u") (auto simp: polls_def)

lemma fires_polls: "fires s t \<Longrightarrow> polls s t"
  by (cases "signal t"; cases "signal s") (auto simp: polls_def fires_def)

lemma run_actions_other_calls:
  "st' \<noteq> st \<Longrightarrow> calls_of st' (trace (snd (run_actions rt st fs s))) = calls_of st' (trace s)"
  by (induction fs arbitrary: s)
     (auto simp: call_def logger_def calls_of_append split: prod.splits outcome.splits)

lemma run_actions_completed:
  "completed (trace (snd (run_actions rt st fs s))) = completed (trace s)"
  by (induction fs arbitrary: s)
     (auto simp: call_def logger_def completed_def split: prod.splits outcome.splits)

lemma fires_handle_shutdown: "fires s (snd (handle_shutdown rt c s))"
proof (cases "signal s = None")
  case False
  then show ?thesis by (simp add: handle_shutdown_triggered fires_refl)
next
  case True
  let ?s2 = "s\<lparr>signal := Some c, sleeper := True\<rparr>"
  have key: "\<And>t. untouched ?s2 t \<Longrightarrow> calls_of Probe (trace t) = calls_of Probe (trace s) \<Longrightarrow>
      calls_of JoinAction (trace t) = calls_of JoinAction (trace s) \<Longrightarrow>
      completed (trace t) = completed (trace s) \<Longrightarrow> fires s t"
    using True by (auto simp: fires_def untouched_def)
  have l1: "\<And>lv m. untouched ?s2 (logger lv m ?s2)"
    by (rule untouched_logger)
  have l2: "\<And>lv m lv' m'. untouched ?s2 (logger lv m (logger lv' m' ?s2))"
    using untouched_logger untouched_trans by blast
  have c1: "\<And>lv m st. calls_of st (trace (logger lv m ?s2)) = calls_of st (trace s)"
    by (simp add: logger_def calls_of_append)
  have c2: "\<And>lv m lv' m' st. calls_of st (trace (logger lv m (logger lv' m' ?s2))) = calls_of st (trace s)"
    by (simp add: logger_def calls_of_append)
  have d0: "completed (trace ?s2) = completed (trace s)"
    by simp
  have d1: "\<And>m. completed (trace (logger WARNING m ?s2)) = completed (trace s)"
    by (simp add: logger_def completed_def)
  have d2: "\<And>m. completed (trace (logger INFO (log_msg_prefix @ '': initiating shutdown ...'')
        (logger WARNING m ?s2))) = completed (trace s)"
    by (simp add: logger_def completed_def log_msg_prefix_def)
  have r: "\<And>fs t. untouched ?s2 t \<Longrightarrow> calls_of Probe (trace t) = calls_of Probe (trace s) \<Longrightarrow>
      calls_of JoinAction (trace t) = calls_of JoinAction (trace s) \<Longrightarrow>
      completed (trace t) = completed (trace s) \<Longrightarrow>
      fires s (snd (run_actions rt ShutdownAction fs t))"
  proof -
    fix fs and t :: "'a watchdog"
    assume a: "untouched ?s2 t" "calls_of Probe (trace t) = calls_of Probe (trace s)"
      "calls_of JoinAction (trace t) = calls_of JoinAction (trace s)"
      "completed (trace t) = completed (trace s)"
    have "untouched t (snd (run_actions rt ShutdownAction fs t))"
      by (rule untouched_run_actions[of rt ShutdownAction fs t "fst (run_actions rt ShutdownAction fs t)"]) simp
    then have "untouched ?s2 (snd (run_actions rt ShutdownAction fs t))"
      using a(1) untouched_trans by blast
    then show "fires s (snd (run_actions rt ShutdownAction fs t))"
      using a(2,3,4) by (intro key) (simp_all add: run_actions_other_calls run_actions_completed)
  qed
  show ?thesis
    unfolding handle_shutdown_fresh[OF True]
    by (simp add: key untouched_refl l1 l2 c1 c2 d0 d1 d2 r del: run_actions.simps
        split: option.splits list.splits)
qed

lemma handle_shutdown_signal: "signal (snd (handle_shutdown rt c s)) \<noteq> None"
proof (cases "signal s = None")
  case True
  then show ?thesis using handle_shutdown_sets[of s rt c] by simp
next
  case False
  then show ?thesis by (simp add: handle_shutdown_triggered)
qed

lemma fires_deliver: "fires s (deliver rt n s)"
proof (cases "n \<in> handlers s")
  case False
  then show ?thesis by (simp add: deliver_def fires_refl)
next
  case True
  obtain r s1 where h: "handle_shutdown rt n s = (r, s1)" by (cases "handle_shutdown rt n s")
  have f: "fires s s1" using fires_handle_shutdown[of s rt n] h by simp
  have n: "signal s1 \<noteq> None" using handle_shutdown_signal[of rt n s] h by simp
  show ?thesis
  proof (cases r)
    case None
    then show ?thesis using True h f by (simp add: deliver_def)
  next
    case (Some ex)
    have z: "signal s = None"
      using h Some by (cases "signal s = None") (simp_all add: handle_shutdown_triggered)
    have "fires s (s1\<lparr>trace := trace s1 @ [Uncaught MainThread ex]\<rparr>)"
      using f n z by (auto simp: fires_def calls_of_append completed_def)
    then show ?thesis using True h Some by (simp add: deliver_def)
  qed
qed

lemma fires_fold_deliver: "fires s (fold (deliver rt) sigs s)"
proof (induction sigs arbitrary: s)
  case Nil
  then show ?case by (simp add: fires_refl)
next
  case (Cons n ns)
  have "fires s (deliver rt n s)" by (rule fires_deliver)
  moreover have "fires (deliver rt n s) (fold (deliver rt) ns (deliver rt n s))" by (rule Cons.IH)
  ultimately show ?case using fires_trans by simp blast
qed

lemma fires_world: "fires s (s\<lparr>world := w\<rparr>)"
  by (auto simp: fires_def)

lemma fires_arrivals: "fires s (arrivals rt s)"
proof -
  obtain sigs w where a: "arrive rt (world s) = (sigs, w)" by (cases "arrive rt (world s)")
  have "fires (s\<lparr>world := w\<rparr>) (fold (deliver rt) sigs (s\<lparr>world := w\<rparr>))"
    by (rule fires_fold_deliver)
  then show ?thesis using a fires_world[of s w] fires_trans by (simp add: arrivals_def) blast
qed

lemma polls_call: "call Probe f s = (out, s0) \<Longrightarrow> polls s s0"
  by (auto simp: call_def polls_def calls_of_append completed_def split: prod.splits)

lemma polls_logger: "polls s (logger ERROR m s)"
  by (auto simp: logger_def polls_def calls_of_append completed_def)

lemma run_probes_triggered: "signal s \<noteq> None \<Longrightarrow> run_probes rt fs s = (None, s)"
  by (cases fs) auto

lemma polls_run_probes: "run_probes rt fs s = (r, s') \<Longrightarrow> polls s s'"
proof (induction fs arbitrary: s)
  case Nil
  then show ?case by (simp add: polls_refl)
next
  case (Cons f fs)
  show ?case
  proof (cases "signal s = None")
    case False
    then show ?thesis using Cons.prems by (auto simp: polls_refl)
  next
    case True
    obtain out s0 where c: "call Probe f (arrivals rt s) = (out, s0)"
      by (cases "call Probe f (arrivals rt s)")
    let ?s1 = "arrivals rt s0"
    have "polls s (arrivals rt s)" by (rule fires_polls[OF fires_arrivals])
    then have "polls s s0" using polls_call[OF c] polls_trans by blast
    then have p1: "polls s ?s1"
      using fires_polls[OF fires_arrivals[of s0 rt]] polls_trans by blast
    have step: "\<And>t. polls ?s1 t \<Longrightarrow> run_probes rt fs t = (r, s') \<Longrightarrow> polls s s'"
      using p1 Cons.IH polls_trans by blast
    show ?thesis
    proof (cases out)
      case (Raises ex)
      show ?thesis
      proof (cases "is_Exception ex")
        case True
        with Cons.prems \<open>signal s = None\<close> c Raises
        have "run_probes rt fs (logger ERROR (failed_msg rt Probe ex f) ?s1) = (r, s')"
          by (simp add: Let_def)
        then show ?thesis using step polls_logger by blast
      next
        case False
        with Cons.prems \<open>signal s = None\<close> c Raises have "s' = ?s1" by (simp add: Let_def)
        then show ?thesis using p1 by simp
      qed
    next
      case (Returns healthy)
      show ?thesis
      proof (cases healthy)
        case True
        with Cons.prems \<open>signal s = None\<close> c Returns
        have "run_probes rt fs ?s1 = (r, s')" by (simp add: Let_def)
        then show ?thesis using step polls_refl by blast
      next
        case False
        obtain r2 s2 where h: "handle_shutdown rt (SIGABRT rt) ?s1 = (r2, s2)"
          by (cases "handle_shutdown rt (SIGABRT rt) ?s1")
        have p2: "polls ?s1 s2"
          using fires_polls[OF fires_handle_shutdown[of ?s1 rt "SIGABRT rt"]] h by simp
        show ?thesis
        proof (cases r2)
          case None
          with Cons.prems \<open>signal s = None\<close> c Returns False h have "s' = s2"
            by (simp add: Let_def)
          then show ?thesis using p1 p2 polls_trans by blast
        next
          case (Some ex)
          show ?thesis
          proof (cases "is_Exception ex")
            case True
            with Cons.prems \<open>signal s = None\<close> c Returns False h Some
            have "run_probes rt fs (logger ERROR (failed_msg rt Probe ex f) s2) = (r, s')"
              by (simp add: Let_def)
            moreover have "polls ?s1 (logger ERROR (failed_msg rt Probe ex f) s2)"
              using p2 polls_logger polls_trans by blast
            ultimately show ?thesis using step by blast
          next
            case nb: False
            with Cons.prems \<open>signal s = None\<close> c Returns False h Some have "s' = s2"
              by (simp add: Let_def)
            then show ?thesis using p1 p2 polls_trans by blast
          qed
        qed
      qed
    qed
  qed
qed

lemma polls_resume: "polls s (s\<lparr>trace := trace s @ [Resume b]\<rparr>)"
  by (auto simp: polls_def calls_of_append completed_def)

lemma polls_block: "polls s (s\<lparr>trace := trace s @ [Block t]\<rparr>)"
  by (auto simp: polls_def calls_of_append completed_def)

lemma polls_blocked:
  "polls s ((arrivals rt (s\<lparr>trace := trace s @ [Block t]\<rparr>))
              \<lparr>trace := trace (arrivals rt (s\<lparr>trace := trace s @ [Block t]\<rparr>)) @ [Resume b]\<rparr>)"
proof -
  let ?s0 = "s\<lparr>trace := trace s @ [Block t]\<rparr>"
  have "polls s ?s0" by (rule polls_block)
  moreover have "polls ?s0 (arrivals rt ?s0)" by (rule fires_polls[OF fires_arrivals])
  moreover have "polls (arrivals rt ?s0)
     ((arrivals rt ?s0)\<lparr>trace := trace (arrivals rt ?s0) @ [Resume b]\<rparr>)"
    by (rule polls_resume)
  ultimately show ?thesis using polls_trans by blast
qed

lemma polls_sleeper_wait: "sleeper_wait rt t s = Some (r, s') \<Longrightarrow> polls s s'"
proof -
  assume a: "sleeper_wait rt t s = Some (r, s')"
  have "s' = s \<or> s' = arrivals rt s \<or>
        (\<exists>b. s' = (arrivals rt (s\<lparr>trace := trace s @ [Block t]\<rparr>))
                \<lparr>trace := trace (arrivals rt (s\<lparr>trace := trace s @ [Block t]\<rparr>)) @ [Resume b]\<rparr>)"
    using a by (auto simp: sleeper_wait_def Let_def split: if_splits option.splits)
  then show ?thesis
    using polls_refl[of s] fires_polls[OF fires_arrivals[of s rt]] polls_blocked[of s rt t] by blast
qed

lemma polls_monitor_while:
  assumes run: "monitor_while rt0 s0 = Some y0"
  shows "polls s0 (snd y0)"
proof (rule monitor_while.raw_induct[where P = "\<lambda>rt s y. polls s (snd y)", OF _ run], goal_cases)
  case (1 mw rt s y)
  show ?case
  proof (cases "signal s = None")
    case False
    then have "snd y = s" using 1(2) by auto
    then show ?thesis by (auto simp: polls_def)
  next
    case True
    show ?thesis
    proof (cases "monitor_callables s")
      case None
      then have "snd y = s" using 1(2) True by auto
      then show ?thesis by (auto simp: polls_def)
    next
      case (Some fs)
      obtain r s1 where rp: "run_probes rt fs s = (r, s1)" by (cases "run_probes rt fs s")
      have p1: "polls s s1" using rp by (rule polls_run_probes)
      show ?thesis
      proof (cases r)
        case (Some ex)
        then show ?thesis using 1(2) True \<open>monitor_callables s = Some fs\<close> rp p1 by auto
      next
        case None
        note rn = this
        show ?thesis
        proof (cases "sleeper_wait rt (Some (monitor_delay s1)) s1")
          case None
          then show ?thesis using 1(2) True \<open>monitor_callables s = Some fs\<close> rp rn by simp
        next
          case (Some w)
          obtain r2 s2 where w: "w = (r2, s2)" by (cases w)
          have p2: "polls s1 s2" using Some w polls_sleeper_wait by blast
          show ?thesis
          proof (cases r2)
            case None
            then have "mw rt s2 = Some y"
              using 1(2) True \<open>monitor_callables s = Some fs\<close> rp rn Some w by simp
            then have "polls s2 (snd y)" by (rule 1(1))
            then show ?thesis using p1 p2 polls_trans by blast
          next
            case (Some ex)
            then have "snd y = s2"
              using 1(2) True \<open>monitor_callables s = Some fs\<close> rp rn \<open>sleeper_wait rt (Some (monitor_delay s1)) s1 = Some w\<close> w
              by auto
            then show ?thesis using p1 p2 polls_trans by blast
          qed
        qed
      qed
    qed
  qed
qed

subsection \<open>Isolation of action faults\<close>

lemma run_actions_append:
  "run_actions rt st xs s = (None, s1) \<Longrightarrow> run_actions rt st (xs @ ys) s = run_actions rt st ys s1"
  by (induction xs arbitrary: s) (auto split: prod.splits outcome.splits if_splits)

lemma run_actions_not_Exception:
  "run_actions rt st fs s = (Some ex, s') \<Longrightarrow> \<not> is_Exception ex"
  by (induction fs arbitrary: s) (auto split: prod.splits outcome.splits if_splits)

lemma run_actions_all_calls:
  "run_actions rt st fs s = (None, s') \<Longrightarrow>
   calls_of st (trace s') = calls_of st (trace s) @ map ident fs"
proof (induction fs arbitrary: s)
  case Nil
  then show ?case by simp
next
  case (Cons f fs)
  obtain out s1 where c: "call st f s = (out, s1)" by (cases "call st f s")
  then have t1: "trace s1 = trace s @ [Call st (ident f)]"
    by (auto simp: call_def split: prod.splits)
  show ?case
  proof (cases out)
    case (Returns b)
    then have "run_actions rt st fs s1 = (None, s')" using Cons.prems c by simp
    then have "calls_of st (trace s') = calls_of st (trace s1) @ map ident fs" by (rule Cons.IH)
    then show ?thesis using t1 by (simp add: calls_of_append)
  next
    case (Raises ex)
    then have e: "is_Exception ex" using Cons.prems c by (cases "is_Exception ex") simp_all
    let ?s2 = "logger ERROR (failed_msg rt st ex f) s1"
    have "run_actions rt st fs ?s2 = (None, s')" using Cons.prems c Raises e by simp
    then have "calls_of st (trace s') = calls_of st (trace ?s2) @ map ident fs" by (rule Cons.IH)
    then show ?thesis using t1 by (simp add: calls_of_append logger_def)
  qed
qed

lemma run_actions_behaved:
  "\<forall>f \<in> set fs. \<forall>w ex. fst (run f w) = Raises ex \<longrightarrow> is_Exception ex \<Longrightarrow>
   fst (run_actions rt st fs s) = None"
proof (induction fs arbitrary: s)
  case Nil
  then show ?case by simp
next
  case (Cons f fs)
  obtain out w' where r: "run f (world s) = (out, w')" by (cases "run f (world s)")
  have ih: "\<And>t. fst (run_actions rt st fs t) = None" using Cons by simp
  show ?case
  proof (cases out)
    case (Returns b)
    then show ?thesis using r ih by (simp add: call_def)
  next
    case (Raises ex)
    then have "is_Exception ex" using Cons.prems r by (metis fst_conv list.set_intros(1))
    then show ?thesis using r Raises ih by (simp add: call_def)
  qed
qed

lemma run_actions_logged:
  "Log ERROR m \<in> set (trace s) \<Longrightarrow> Log ERROR m \<in> set (trace (snd (run_actions rt st fs s)))"
proof -
  assume a: "Log ERROR m \<in> set (trace s)"
  have "untouched s (snd (run_actions rt st fs s))"
    by (rule untouched_run_actions[of rt st fs s "fst (run_actions rt st fs s)"]) simp
  then show ?thesis using a by (auto simp: untouched_def)
qed

lemma handle_shutdown_actions:
  "signal s = None \<Longrightarrow> signal_name rt c = Some name \<Longrightarrow> shutdown_callables s = Some fs \<Longrightarrow>
   fs \<noteq> [] \<Longrightarrow>
   handle_shutdown rt c s =
     run_actions rt ShutdownAction fs
       (logger INFO (log_msg_prefix @ '': initiating shutdown ...'')
          (logger WARNING (caught_msg name) (s\<lparr>signal := Some c, sleeper := True\<rparr>)))"
  by (cases fs) (simp_all add: handle_shutdown_fresh del: run_actions.simps)

lemma failed_msg_text:
  "failed_msg rt st ex a =
     ''watchdog error: executing '' @ site_word st @ '' callable failed: reason=''
       @ repr_list rt (map (\<lambda>item. replace_newline (strip item)) (format_exception_only rt ex))
       @ '' callable='' @ ident a"
  by (simp add: failed_msg_def log_err_msg_prefix_def log_msg_prefix_def get_exception_str_def)

lemma run_actions_isolated:
  assumes "run_actions rt st pre s = (None, s1)"
    and "call st a s1 = (Raises (Exception e), s2)"
  shows "run_actions rt st (pre @ a # post) s =
           run_actions rt st post (logger ERROR (failed_msg rt st (Exception e) a) s2)"
    and "Log ERROR (failed_msg rt st (Exception e) a)
           \<in> set (trace (snd (run_actions rt st (pre @ a # post) s)))"
proof -
  let ?L = "logger ERROR (failed_msg rt st (Exception e) a) s2"
  show eq: "run_actions rt st (pre @ a # post) s = run_actions rt st post ?L"
    using run_actions_append[OF assms(1), of "a # post"] assms(2) by simp
  have "Log ERROR (failed_msg rt st (Exception e) a) \<in> set (trace ?L)"
    by (simp add: logger_def)
  then show "Log ERROR (failed_msg rt st (Exception e) a)
           \<in> set (trace (snd (run_actions rt st (pre @ a # post) s)))"
    unfolding eq by (rule run_actions_logged)
qed

lemma shutdown_fault_isolated:
  assumes "signal s = None" and "signal_name rt c = Some name"
    and "shutdown_callables s = Some (pre @ a # post)"
    and "run_actions rt ShutdownAction pre
           (logger INFO (log_msg_prefix @ '': initiating shutdown ...'')
              (logger WARNING (caught_msg name) (s\<lparr>signal := Some c, sleeper := True\<rparr>))) = (None, s1)"
    and "call ShutdownAction a s1 = (Raises (Exception e), s2)"
  shows "handle_shutdown rt c s =
           run_actions rt ShutdownAction post
             (logger ERROR (failed_msg rt ShutdownAction (Exception e) a) s2) \<and>
         Log ERROR (failed_msg rt ShutdownAction (Exception e) a)
           \<in> set (trace (snd (handle_shutdown rt c s))) \<and>
         (\<forall>ex. fst (handle_shutdown rt c s) = Some ex \<longrightarrow> \<not> is_Exception ex) \<and>
         (fst (handle_shutdown rt c s) = None \<longrightarrow>
            calls_of ShutdownAction (trace (snd (handle_shutdown rt c s))) =
              calls_of ShutdownAction (trace s) @ map ident (pre @ a # post)) \<and>
         ((\<forall>f \<in> set post. \<forall>w ex. fst (run f w) = Raises ex \<longrightarrow> is_Exception ex) \<longrightarrow>
            fst (handle_shutdown rt c s) = None)"
proof -
  let ?s0 = "logger INFO (log_msg_prefix @ '': initiating shutdown ...'')
              (logger WARNING (caught_msg name) (s\<lparr>signal := Some c, sleeper := True\<rparr>))"
  let ?L = "logger ERROR (failed_msg rt ShutdownAction (Exception e) a) s2"
  have h: "handle_shutdown rt c s = run_actions rt ShutdownAction (pre @ a # post) ?s0"
    by (rule handle_shutdown_actions[OF assms(1,2,3)]) simp
  have 1: "handle_shutdown rt c s = run_actions rt ShutdownAction post ?L"
    unfolding h by (rule run_actions_isolated(1)[OF assms(4,5)])
  have 2: "Log ERROR (failed_msg rt ShutdownAction (Exception e) a)
           \<in> set (trace (snd (handle_shutdown rt c s)))"
    unfolding h by (rule run_actions_isolated(2)[OF assms(4,5)])
  have 3: "\<forall>ex. fst (handle_shutdown rt c s) = Some ex \<longrightarrow> \<not> is_Exception ex"
    unfolding h using run_actions_not_Exception[of rt ShutdownAction "pre @ a # post" ?s0]
    by (metis prod.collapse)
  have c0: "calls_of ShutdownAction (trace ?s0) = calls_of ShutdownAction (trace s)"
    by (simp add: logger_def calls_of_append)
  have 4: "fst (handle_shutdown rt c s) = None \<longrightarrow>
            calls_of ShutdownAction (trace (snd (handle_shutdown rt c s))) =
              calls_of ShutdownAction (trace s) @ map ident (pre @ a # post)"
    unfolding h using run_actions_all_calls[of rt ShutdownAction "pre @ a # post" ?s0] c0
    by (metis prod.collapse)
  have 5: "(\<forall>f \<in> set post. \<forall>w ex. fst (run f w) = Raises ex \<longrightarrow> is_Exception ex) \<longrightarrow>
            fst (handle_shutdown rt c s) = None"
    unfolding 1 using run_actions_behaved[of post rt ShutdownAction ?L] by blast
  show ?thesis using 1 2 3 4 5 by blast
qed

lemma join_fault_isolated:
  assumes "thread_join rt j = Some (None, j0)"
    and "join_callables j0 = Some (pre @ a # post)"
    and "run_actions rt JoinAction pre j0 = (None, j1)"
    and "call JoinAction a j1 = (Raises (Exception e), j2)"
  shows "join rt j =
           (case run_actions rt JoinAction post
                   (logger ERROR (failed_msg rt JoinAction (Exception e) a) j2) of
              (Some ex, j3) \<Rightarrow> Some (Some ex, j3)
            | (None, j3) \<Rightarrow> Some (None, logger INFO (log_msg_prefix @ '': shutdown complete'') j3)) \<and>
         (\<exists>r j'. join rt j = Some (r, j') \<and>
            Log ERROR (failed_msg rt JoinAction (Exception e) a) \<in> set (trace j') \<and>
            (\<forall>ex. r = Some ex \<longrightarrow> \<not> is_Exception ex) \<and>
            (r = None \<longrightarrow>
               calls_of JoinAction (trace j') =
                 calls_of JoinAction (trace j0) @ map ident (pre @ a # post))) \<and>
         ((\<forall>f \<in> set post. \<forall>w ex. fst (run f w) = Raises ex \<longrightarrow> is_Exception ex) \<longrightarrow>
            (\<exists>j'. join rt j = Some (None, j')))"
proof -
  let ?L = "logger ERROR (failed_msg rt JoinAction (Exception e) a) j2"
  let ?m = "Log ERROR (failed_msg rt JoinAction (Exception e) a)"
  obtain r j3 where ra: "run_actions rt JoinAction (pre @ a # post) j0 = (r, j3)"
    by (cases "run_actions rt JoinAction (pre @ a # post) j0")
  have eq: "run_actions rt JoinAction post ?L = (r, j3)"
    using run_actions_isolated(1)[OF assms(3,4), of post] ra by simp
  have lg: "?m \<in> set (trace j3)"
    using run_actions_isolated(2)[OF assms(3,4), of post] ra by simp
  have j: "join rt j =
     (case r of Some ex \<Rightarrow> Some (Some ex, j3)
      | None \<Rightarrow> Some (None, logger INFO (log_msg_prefix @ '': shutdown complete'') j3))"
    using assms(1,2) ra by (simp add: join_def split: option.splits)
  have 1: "join rt j =
           (case run_actions rt JoinAction post ?L of
              (Some ex, j3) \<Rightarrow> Some (Some ex, j3)
            | (None, j3) \<Rightarrow> Some (None, logger INFO (log_msg_prefix @ '': shutdown complete'') j3))"
    unfolding eq j by (simp split: option.splits)
  have 2: "\<exists>r j'. join rt j = Some (r, j') \<and> ?m \<in> set (trace j') \<and>
            (\<forall>ex. r = Some ex \<longrightarrow> \<not> is_Exception ex) \<and>
            (r = None \<longrightarrow>
               calls_of JoinAction (trace j') =
                 calls_of JoinAction (trace j0) @ map ident (pre @ a # post))"
  proof (cases r)
    case None
    let ?j' = "logger INFO (log_msg_prefix @ '': shutdown complete'') j3"
    have "calls_of JoinAction (trace j3) = calls_of JoinAction (trace j0) @ map ident (pre @ a # post)"
      using run_actions_all_calls[of rt JoinAction "pre @ a # post" j0 j3] ra None by simp
    then have "calls_of JoinAction (trace ?j') =
       calls_of JoinAction (trace j0) @ map ident (pre @ a # post)"
      by (simp add: logger_def calls_of_append)
    moreover have "?m \<in> set (trace ?j')" using lg by (simp add: logger_def)
    moreover have "join rt j = Some (None, ?j')" using j None by simp
    ultimately show ?thesis by blast
  next
    case (Some ex)
    then have "\<not> is_Exception ex" using run_actions_not_Exception ra by blast
    moreover have "join rt j = Some (Some ex, j3)" using j Some by simp
    ultimately show ?thesis using lg by blast
  qed
  have 3: "(\<forall>f \<in> set post. \<forall>w ex. fst (run f w) = Raises ex \<longrightarrow> is_Exception ex) \<longrightarrow>
            (\<exists>j'. join rt j = Some (None, j'))"
  proof
    assume "\<forall>f \<in> set post. \<forall>w ex. fst (run f w) = Raises ex \<longrightarrow> is_Exception ex"
    then have "fst (run_actions rt JoinAction post ?L) = None" by (rule run_actions_behaved)
    then have "r = None" using eq by simp
    then show "\<exists>j'. join rt j = Some (None, j')" using j by simp
  qed
  show ?thesis using 1 2 3 by blast
qed

text \<open>
  Claim C5 (action isolation). The record logged for an action that raised an \<open>Exception\<close>
  carries the formatted exception and \<open>str\<close> of the action. In the shutdown phase, which
  the trigger enters when it records a cause and shutdown actions are registered: when the
  registered actions before \<open>a\<close> have run and \<open>a\<close> raises an \<open>Exception\<close>, the trigger logs
  that record and goes on with the actions registered after \<open>a\<close>; no \<open>Exception\<close> leaves the
  trigger, so whoever the handler interrupted, or the monitor loop, does not see it; a trigger
  that nothing leaves has called every registered action once, in registration order; and
  nothing leaves it when the remaining actions raise nothing but \<open>Exception\<close>s. In the join
  phase, which \<open>join\<close> enters when the thread is over: the same, with the completion line
  after the last action.
\<close>

theorem action_fault_isolated:
  "failed_msg rt ShutdownAction (Exception e) a =
     ''watchdog error: executing shutdown callable failed: reason=''
       @ repr_list rt (map (\<lambda>item. replace_newline (strip item))
                         (format_exception_only rt (Exception e)))
       @ '' callable='' @ ident a \<and>
   failed_msg rt JoinAction (Exception e) a =
     ''watchdog error: executing join callable failed: reason=''
       @ repr_list rt (map (\<lambda>item. replace_newline (strip item))
                         (format_exception_only rt (Exception e)))
       @ '' callable='' @ ident a \<and>
   (signal s = None \<and> signal_name rt c = Some name \<and>
    shutdown_callables s = Some (pre @ a # post) \<and>
    run_actions rt ShutdownAction pre
      (logger INFO (log_msg_prefix @ '': initiating shutdown ...'')
         (logger WARNING (caught_msg name) (s\<lparr>signal := Some c, sleeper := True\<rparr>))) = (None, s1) \<and>
    call ShutdownAction a s1 = (Raises (Exception e), s2) \<longrightarrow>
      handle_shutdown rt c s =
        run_actions rt ShutdownAction post
          (logger ERROR (failed_msg rt ShutdownAction (Exception e) a) s2) \<and>
      Log ERROR (failed_msg rt ShutdownAction (Exception e) a)
        \<in> set (trace (snd (handle_shutdown rt c s))) \<and>
      (\<forall>ex. fst (handle_shutdown rt c s) = Some ex \<longrightarrow> \<not> is_Exception ex) \<and>
      (fst (handle_shutdown rt c s) = None \<longrightarrow>
         calls_of ShutdownAction (trace (snd (handle_shutdown rt c s))) =
           calls_of ShutdownAction (trace s) @ map ident (pre @ a # post)) \<and>
      ((\<forall>f \<in> set post. \<forall>w ex. fst (run f w) = Raises ex \<longrightarrow> is_Exception ex) \<longrightarrow>
         fst (handle_shutdown rt c s) = None)) \<and>
   (thread_join rt j = Some (None, j0) \<and> join_callables j0 = Some (pre @ a # post) \<and>
    run_actions rt JoinAction pre j0 = (None, j1) \<and>
    call JoinAction a j1 = (Raises (Exception e), j2) \<longrightarrow>
      join rt j =
        (case run_actions rt JoinAction post
                (logger ERROR (failed_msg rt JoinAction (Exception e) a) j2) of
           (Some ex, j3) \<Rightarrow> Some (Some ex, j3)
         | (None, j3) \<Rightarrow> Some (None, logger INFO (log_msg_prefix @ '': shutdown complete'') j3)) \<and>
      (\<exists>r j'. join rt j = Some (r, j') \<and>
         Log ERROR (failed_msg rt JoinAction (Exception e) a) \<in> set (trace j') \<and>
         (\<forall>ex. r = Some ex \<longrightarrow> \<not> is_Exception ex) \<and>
         (r = None \<longrightarrow>
            calls_of JoinAction (trace j') =
              calls_of JoinAction (trace j0) @ map ident (pre @ a # post))) \<and>
      ((\<forall>f \<in> set post. \<forall>w ex. fst (run f w) = Raises ex \<longrightarrow> is_Exception ex) \<longrightarrow>
         (\<exists>j'. join rt j = Some (None, j'))))"
proof (intro conjI)
  show "failed_msg rt ShutdownAction (Exception e) a =
     ''watchdog error: executing shutdown callable failed: reason=''
       @ repr_list rt (map (\<lambda>item. replace_newline (strip item))
                         (format_exception_only rt (Exception e)))
       @ '' callable='' @ ident a"
    by (simp add: failed_msg_text)
  show "failed_msg rt JoinAction (Exception e) a =
     ''watchdog error: executing join callable failed: reason=''
       @ repr_list rt (map (\<lambda>item. replace_newline (strip item))
                         (format_exception_only rt (Exception e)))
       @ '' callable='' @ ident a"
    by (simp add: failed_msg_text)
  show "signal s = None \<and> signal_name rt c = Some name \<and>
    shutdown_callables s = Some (pre @ a # post) \<and>
    run_actions rt ShutdownAction pre
      (logger INFO (log_msg_prefix @ '': initiating shutdown ...'')
         (logger WARNING (caught_msg name) (s\<lparr>signal := Some c, sleeper := True\<rparr>))) = (None, s1) \<and>
    call ShutdownAction a s1 = (Raises (Exception e), s2) \<longrightarrow>
      handle_shutdown rt c s =
        run_actions rt ShutdownAction post
          (logger ERROR (failed_msg rt ShutdownAction (Exception e) a) s2) \<and>
      Log ERROR (failed_msg rt ShutdownAction (Exception e) a)
        \<in> set (trace (snd (handle_shutdown rt c s))) \<and>
      (\<forall>ex. fst (handle_shutdown rt c s) = Some ex \<longrightarrow> \<not> is_Exception ex) \<and>
      (fst (handle_shutdown rt c s) = None \<longrightarrow>
         calls_of ShutdownAction (trace (snd (handle_shutdown rt c s))) =
           calls_of ShutdownAction (trace s) @ map ident (pre @ a # post)) \<and>
      ((\<forall>f \<in> set post. \<forall>w ex. fst (run f w) = Raises ex \<longrightarrow> is_Exception ex) \<longrightarrow>
         fst (handle_shutdown rt c s) = None)"
    by (rule impI, elim conjE, rule shutdown_fault_isolated; assumption)
  show "thread_join rt j = Some (None, j0) \<and> join_callables j0 = Some (pre @ a # post) \<and>
    run_actions rt JoinAction pre j0 = (None, j1) \<and>
    call JoinAction a j1 = (Raises (Exception e), j2) \<longrightarrow>
      join rt j =
        (case run_actions rt JoinAction post
                (logger ERROR (failed_msg rt JoinAction (Exception e) a) j2) of
           (Some ex, j3) \<Rightarrow> Some (Some ex, j3)
         | (None, j3) \<Rightarrow> Some (None, logger INFO (log_msg_prefix @ '': shutdown complete'') j3)) \<and>
      (\<exists>r j'. join rt j = Some (r, j') \<and>
         Log ERROR (failed_msg rt JoinAction (Exception e) a) \<in> set (trace j') \<and>
         (\<forall>ex. r = Some ex \<longrightarrow> \<not> is_Exception ex) \<and>
         (r = None \<longrightarrow>
            calls_of JoinAction (trace j') =
              calls_of JoinAction (trace j0) @ map ident (pre @ a # post))) \<and>
      ((\<forall>f \<in> set post. \<forall>w ex. fst (run f w) = Raises ex \<longrightarrow> is_Exception ex) \<longrightarrow>
         (\<exists>j'. join rt j = Some (None, j')))"
    by (rule impI, elim conjE, rule join_fault_isolated; assumption)
qed

theorem action_fault_isolated_witness:
  "signal idle = None \<and> signal_name cpython_linux 15 = Some ''SIGTERM'' \<and>
   shutdown_callables idle = Some ([cleanup] @ faulty # [cleanup]) \<and>
   run_actions cpython_linux ShutdownAction [cleanup]
      (logger INFO (log_msg_prefix @ '': initiating shutdown ...'')
         (logger WARNING (caught_msg ''SIGTERM'') (idle\<lparr>signal := Some 15, sleeper := True\<rparr>)))
     = (None, alerted) \<and>
   call ShutdownAction faulty alerted =
     (Raises (Exception ''RuntimeError: boom''),
      alerted\<lparr>trace := trace alerted @ [Call ShutdownAction ''faulty'']\<rparr>) \<and>
   failed_msg cpython_linux ShutdownAction (Exception ''RuntimeError: boom'') faulty =
     ''watchdog error: executing shutdown callable failed: reason=['' @ [CHR 0x27]
       @ ''RuntimeError: boom'' @ [CHR 0x27] @ ''] callable=faulty'' \<and>
   handle_shutdown cpython_linux 15 idle =
     run_actions cpython_linux ShutdownAction [cleanup]
       (logger ERROR (failed_msg cpython_linux ShutdownAction (Exception ''RuntimeError: boom'') faulty)
          (alerted\<lparr>trace := trace alerted @ [Call ShutdownAction ''faulty'']\<rparr>)) \<and>
   Log ERROR (failed_msg cpython_linux ShutdownAction (Exception ''RuntimeError: boom'') faulty)
     \<in> set (trace (snd (handle_shutdown cpython_linux 15 idle))) \<and>
   fst (handle_shutdown cpython_linux 15 idle) = None \<and>
   calls_of ShutdownAction (trace (snd (handle_shutdown cpython_linux 15 idle))) =
     calls_of ShutdownAction (trace idle) @ map ident ([cleanup] @ faulty # [cleanup]) \<and>
   calls_of ShutdownAction (trace idle) @ map ident ([cleanup] @ faulty # [cleanup]) =
     [''cleanup'', ''faulty'', ''cleanup''] \<and>
   thread_join cpython_linux halted = Some (None, halted) \<and>
   join_callables halted = Some ([cleanup] @ faulty # [cleanup]) \<and>
   run_actions cpython_linux JoinAction [cleanup] halted =
     (None, halted\<lparr>trace := [Call JoinAction ''cleanup'']\<rparr>) \<and>
   call JoinAction faulty (halted\<lparr>trace := [Call JoinAction ''cleanup'']\<rparr>) =
     (Raises (Exception ''RuntimeError: boom''),
      halted\<lparr>trace := [Call JoinAction ''cleanup'', Call JoinAction ''faulty'']\<rparr>) \<and>
   (\<exists>j'. join cpython_linux halted = Some (None, j')) \<and>
   join cpython_linux halted =
     Some (None, halted\<lparr>trace :=
       [Call JoinAction ''cleanup'', Call JoinAction ''faulty'',
        Log ERROR (''watchdog error: executing join callable failed: reason=['' @ [CHR 0x27]
                     @ ''RuntimeError: boom'' @ [CHR 0x27] @ ''] callable=faulty''),
        Call JoinAction ''cleanup'', Log INFO ''watchdog: shutdown complete'']\<rparr>)"
proof -
  let ?s2 = "alerted\<lparr>trace := trace alerted @ [Call ShutdownAction ''faulty'']\<rparr>"
  let ?j1 = "halted\<lparr>trace := [Call JoinAction ''cleanup'']\<rparr>"
  let ?j2 = "halted\<lparr>trace := [Call JoinAction ''cleanup'', Call JoinAction ''faulty'']\<rparr>"
  have h1: "signal idle = None" by (simp add: idle_def)
  have h2: "signal_name cpython_linux 15 = Some ''SIGTERM''" by (simp add: cpython_linux_def)
  have h3: "shutdown_callables idle = Some ([cleanup] @ faulty # [cleanup])" by (simp add: idle_def)
  have h4: "run_actions cpython_linux ShutdownAction [cleanup]
      (logger INFO (log_msg_prefix @ '': initiating shutdown ...'')
         (logger WARNING (caught_msg ''SIGTERM'') (idle\<lparr>signal := Some 15, sleeper := True\<rparr>)))
     = (None, alerted)"
    by (simp add: alerted_def idle_def logger_def call_def cleanup_def)
  have h5: "call ShutdownAction faulty alerted = (Raises (Exception ''RuntimeError: boom''), ?s2)"
    by (simp add: alerted_def idle_def call_def faulty_def)
  have m: "\<And>st. failed_msg cpython_linux st (Exception ''RuntimeError: boom'') faulty =
     ''watchdog error: executing '' @ site_word st @ '' callable failed: reason=['' @ [CHR 0x27]
       @ ''RuntimeError: boom'' @ [CHR 0x27] @ ''] callable=faulty''"
    by (simp add: failed_msg_def log_err_msg_prefix_def log_msg_prefix_def get_exception_str_def
        cpython_linux_def faulty_def strip_def is_space_def replace_newline_def py_repr_def
        py_escape_def Let_def)
  have m1: "failed_msg cpython_linux ShutdownAction (Exception ''RuntimeError: boom'') faulty =
     ''watchdog error: executing shutdown callable failed: reason=['' @ [CHR 0x27]
       @ ''RuntimeError: boom'' @ [CHR 0x27] @ ''] callable=faulty''"
    using m[of ShutdownAction] by simp
  have b: "\<forall>f \<in> set [cleanup]. \<forall>w ex. fst (run f w) = Raises ex \<longrightarrow> is_Exception ex"
    by (simp add: cleanup_def)
  have k: "calls_of ShutdownAction (trace idle) @ map ident ([cleanup] @ faulty # [cleanup]) =
     [''cleanup'', ''faulty'', ''cleanup'']"
    by (simp add: idle_def cleanup_def faulty_def)
  have g1: "thread_join cpython_linux halted = Some (None, halted)"
    by (simp add: thread_join_def halted_def fired_def idle_def)
  have g2: "join_callables halted = Some ([cleanup] @ faulty # [cleanup])"
    by (simp add: halted_def)
  have g3: "run_actions cpython_linux JoinAction [cleanup] halted = (None, ?j1)"
    by (simp add: halted_def fired_def idle_def call_def cleanup_def)
  have g4: "call JoinAction faulty ?j1 = (Raises (Exception ''RuntimeError: boom''), ?j2)"
    by (simp add: halted_def fired_def idle_def call_def faulty_def)
  have g5: "run_actions cpython_linux JoinAction [cleanup]
       (logger ERROR (failed_msg cpython_linux JoinAction (Exception ''RuntimeError: boom'') faulty) ?j2)
     = (None, halted\<lparr>trace :=
       [Call JoinAction ''cleanup'', Call JoinAction ''faulty'',
        Log ERROR (''watchdog error: executing join callable failed: reason=['' @ [CHR 0x27]
                     @ ''RuntimeError: boom'' @ [CHR 0x27] @ ''] callable=faulty''),
        Call JoinAction ''cleanup'']\<rparr>)"
    using m[of JoinAction]
    by (simp add: halted_def fired_def idle_def call_def cleanup_def logger_def)
  note th = action_fault_isolated[where rt = cpython_linux and e = "''RuntimeError: boom''"
      and a = faulty and s = idle and c = 15 and name = "''SIGTERM''" and pre = "[cleanup]"
      and post = "[cleanup]" and ?s1.0 = alerted and ?s2.0 = ?s2 and j = halted and ?j0.0 = halted
      and ?j1.0 = ?j1 and ?j2.0 = ?j2]
  note cs = th[THEN conjunct2, THEN conjunct2, THEN conjunct1, THEN mp,
      OF conjI[OF h1 conjI[OF h2 conjI[OF h3 conjI[OF h4 h5]]]]]
  note cj = th[THEN conjunct2, THEN conjunct2, THEN conjunct2, THEN mp,
      OF conjI[OF g1 conjI[OF g2 conjI[OF g3 g4]]]]
  note c1 = cs[THEN conjunct1]
  note c2 = cs[THEN conjunct2, THEN conjunct1]
  note c5 = cs[THEN conjunct2, THEN conjunct2, THEN conjunct2, THEN conjunct2, THEN mp, OF b]
  note c4 = cs[THEN conjunct2, THEN conjunct2, THEN conjunct2, THEN conjunct1, THEN mp, OF c5]
  note d1 = cj[THEN conjunct1]
  note d3 = cj[THEN conjunct2, THEN conjunct2, THEN mp, OF b]
  have d4: "join cpython_linux halted =
     Some (None, halted\<lparr>trace :=
       [Call JoinAction ''cleanup'', Call JoinAction ''faulty'',
        Log ERROR (''watchdog error: executing join callable failed: reason=['' @ [CHR 0x27]
                     @ ''RuntimeError: boom'' @ [CHR 0x27] @ ''] callable=faulty''),
        Call JoinAction ''cleanup'', Log INFO ''watchdog: shutdown complete'']\<rparr>)"
    unfolding d1 g5 by (simp add: logger_def log_msg_prefix_def)
  show ?thesis
    using h1 h2 h3 h4 h5 m1 c1 c2 c5 c4 k g1 g2 g3 g4 d3 d4
    apply (intro conjI)
                    apply assumption+
    done
qed

subsection \<open>One polling round\<close>

lemma handle_shutdown_not_Exception:
  assumes "signal_name rt c \<noteq> None" and "handle_shutdown rt c s = (Some ex, s')"
  shows "\<not> is_Exception ex"
proof (cases "signal s = None")
  case False
  then show ?thesis using assms(2) by (simp add: handle_shutdown_triggered)
next
  case True
  show ?thesis
    using assms
    unfolding handle_shutdown_fresh[OF True]
    by (auto simp del: run_actions.simps split: option.splits list.splits
        dest: run_actions_not_Exception)
qed

lemma logger_signal [simp]: "signal (logger lv m s) = signal s"
  by (simp add: logger_def)

lemma run_probes_step:
  assumes "signal s = None" and "call Probe f (arrivals rt s) = (out, s0)"
  shows "run_probes rt (f # fs) s =
     (case out of
        Returns ok \<Rightarrow>
          (if \<not> ok then
             (case handle_shutdown rt (SIGABRT rt) (arrivals rt s0) of
                (None, s2) \<Rightarrow> (None, s2)
              | (Some ex, s2) \<Rightarrow>
                  (if is_Exception ex
                   then run_probes rt fs (logger ERROR (failed_msg rt Probe ex f) s2)
                   else (Some ex, s2)))
           else run_probes rt fs (arrivals rt s0))
      | Raises ex \<Rightarrow>
          (if is_Exception ex
           then run_probes rt fs (logger ERROR (failed_msg rt Probe ex f) (arrivals rt s0))
           else (Some ex, arrivals rt s0)))"
  using assms by (simp add: Let_def)

lemma run_probes_unhealthy_signal:
  assumes "signal s = None" and "call Probe f (arrivals rt s) = (Returns False, s0)"
  shows "signal (snd (run_probes rt (f # fs) s)) \<noteq> None"
proof -
  obtain r2 s2 where h: "handle_shutdown rt (SIGABRT rt) (arrivals rt s0) = (r2, s2)"
    by (cases "handle_shutdown rt (SIGABRT rt) (arrivals rt s0)")
  have n: "signal s2 \<noteq> None"
    using handle_shutdown_signal[of rt "SIGABRT rt" "arrivals rt s0"] h by simp
  show ?thesis
  proof (cases r2)
    case None
    then show ?thesis using n h by (simp add: run_probes_step[OF assms] del: run_probes.simps)
  next
    case (Some ex)
    show ?thesis
    proof (cases "is_Exception ex")
      case True
      have "run_probes rt fs (logger ERROR (failed_msg rt Probe ex f) s2) =
          (None, logger ERROR (failed_msg rt Probe ex f) s2)"
        using n by (intro run_probes_triggered) simp
      then show ?thesis using n h Some True by (simp add: run_probes_step[OF assms] del: run_probes.simps)
    next
      case False
      then show ?thesis using n h Some by (simp add: run_probes_step[OF assms] del: run_probes.simps)
    qed
  qed
qed

lemma run_probes_quiet:
  assumes "run_probes rt (f # fs) s = (None, s1)" and "signal s1 = None"
  shows "signal s = None \<and>
    (\<exists>out s0. call Probe f (arrivals rt s) = (out, s0) \<and>
       (out = Returns True \<and> run_probes rt fs (arrivals rt s0) = (None, s1) \<or>
        (\<exists>e. out = Raises (Exception e) \<and>
           run_probes rt fs (logger ERROR (failed_msg rt Probe (Exception e) f) (arrivals rt s0))
             = (None, s1))))"
proof -
  have sN: "signal s = None"
  proof (rule ccontr)
    assume "signal s \<noteq> None"
    then have "run_probes rt (f # fs) s = (None, s)" by (rule run_probes_triggered)
    then show False using assms \<open>signal s \<noteq> None\<close> by simp
  qed
  obtain out s0 where c: "call Probe f (arrivals rt s) = (out, s0)" by (cases "call Probe f (arrivals rt s)")
  show ?thesis
  proof (cases out)
    case (Returns ok)
    show ?thesis
    proof (cases ok)
      case True
      then show ?thesis using sN c Returns assms(1) by (simp add: run_probes_step[OF sN c] del: run_probes.simps)
    next
      case False
      then have "signal (snd (run_probes rt (f # fs) s)) \<noteq> None"
        using run_probes_unhealthy_signal[OF sN] c Returns by simp
      then show ?thesis using assms by simp
    qed
  next
    case (Raises ex)
    show ?thesis
    proof (cases ex)
      case (Exception e)
      then show ?thesis using sN c Raises assms(1) by (simp add: run_probes_step[OF sN c] del: run_probes.simps)
    next
      case (BaseException e)
      then show ?thesis using sN c Raises assms(1) by (simp add: run_probes_step[OF sN c] del: run_probes.simps)
    qed
  qed
qed

lemma run_probes_append:
  "run_probes rt ps s = (None, s1) \<Longrightarrow> signal s1 = None \<Longrightarrow>
   run_probes rt (ps @ qs) s = run_probes rt qs s1"
proof (induction ps arbitrary: s)
  case Nil
  then show ?case by simp
next
  case (Cons p ps)
  from run_probes_quiet[OF Cons.prems] obtain out s0 where
    sN: "signal s = None" and c: "call Probe p (arrivals rt s) = (out, s0)" and
    d: "out = Returns True \<and> run_probes rt ps (arrivals rt s0) = (None, s1) \<or>
        (\<exists>e. out = Raises (Exception e) \<and>
           run_probes rt ps (logger ERROR (failed_msg rt Probe (Exception e) p) (arrivals rt s0))
             = (None, s1))"
    by blast
  from d show ?case
  proof
    assume a: "out = Returns True \<and> run_probes rt ps (arrivals rt s0) = (None, s1)"
    then have "run_probes rt (ps @ qs) (arrivals rt s0) = run_probes rt qs s1"
      using Cons.IH Cons.prems(2) by blast
    then show ?thesis using a run_probes_step[OF sN c, of "ps @ qs"] by (simp del: run_probes.simps)
  next
    assume "\<exists>e. out = Raises (Exception e) \<and>
           run_probes rt ps (logger ERROR (failed_msg rt Probe (Exception e) p) (arrivals rt s0))
             = (None, s1)"
    then obtain e where a: "out = Raises (Exception e)"
      "run_probes rt ps (logger ERROR (failed_msg rt Probe (Exception e) p) (arrivals rt s0)) = (None, s1)"
      by blast
    then have "run_probes rt (ps @ qs) (logger ERROR (failed_msg rt Probe (Exception e) p) (arrivals rt s0))
        = run_probes rt qs s1"
      using Cons.IH Cons.prems(2) by blast
    then show ?thesis using a(1) run_probes_step[OF sN c, of "ps @ qs"] by (simp del: run_probes.simps)
  qed
qed

lemma call_Probe_calls:
  "call Probe p s = (out, s0) \<Longrightarrow> calls_of Probe (trace s0) = calls_of Probe (trace s) @ [ident p]"
  by (auto simp: call_def calls_of_append split: prod.splits)

lemma arrivals_Probe_calls: "calls_of Probe (trace (arrivals rt s)) = calls_of Probe (trace s)"
  using fires_arrivals[of s rt] by (simp add: fires_def)

lemma run_probes_quiet_calls:
  "run_probes rt ps s = (None, s1) \<Longrightarrow> signal s1 = None \<Longrightarrow>
   calls_of Probe (trace s1) = calls_of Probe (trace s) @ map ident ps"
proof (induction ps arbitrary: s)
  case Nil
  then show ?case by simp
next
  case (Cons p ps)
  from run_probes_quiet[OF Cons.prems] obtain out s0 where
    sN: "signal s = None" and c: "call Probe p (arrivals rt s) = (out, s0)" and
    d: "out = Returns True \<and> run_probes rt ps (arrivals rt s0) = (None, s1) \<or>
        (\<exists>e. out = Raises (Exception e) \<and>
           run_probes rt ps (logger ERROR (failed_msg rt Probe (Exception e) p) (arrivals rt s0))
             = (None, s1))"
    by blast
  have c0: "calls_of Probe (trace (arrivals rt s0)) = calls_of Probe (trace s) @ [ident p]"
    using call_Probe_calls[OF c] arrivals_Probe_calls[of rt s0] arrivals_Probe_calls[of rt s] by simp
  from d show ?case
  proof
    assume a: "out = Returns True \<and> run_probes rt ps (arrivals rt s0) = (None, s1)"
    then have "calls_of Probe (trace s1) = calls_of Probe (trace (arrivals rt s0)) @ map ident ps"
      using Cons.IH Cons.prems(2) by blast
    then show ?thesis using c0 by simp
  next
    assume "\<exists>e. out = Raises (Exception e) \<and>
           run_probes rt ps (logger ERROR (failed_msg rt Probe (Exception e) p) (arrivals rt s0))
             = (None, s1)"
    then obtain e where a:
      "run_probes rt ps (logger ERROR (failed_msg rt Probe (Exception e) p) (arrivals rt s0)) = (None, s1)"
      by blast
    then have "calls_of Probe (trace s1) =
        calls_of Probe (trace (logger ERROR (failed_msg rt Probe (Exception e) p) (arrivals rt s0)))
          @ map ident ps"
      using Cons.IH Cons.prems(2) by blast
    then show ?thesis using c0 by (simp add: logger_def calls_of_append)
  qed
qed

text \<open>
  Claim C3 (probe short-circuit). Within one polling round the probes are called in registration
  order. When a probe returns a false value the monitor calls the shutdown trigger with the
  sentinel \<open>SIGABRT\<close> and leaves the round: the probes registered after it are not called in
  that round, whatever they are (\<open>qs\<close> is arbitrary and does not occur on the right-hand
  side). Afterwards a cause is recorded, and it is the sentinel unless a signal that arrived just
  before or during the failing probe recorded its own cause first.
\<close>

theorem probe_short_circuit:
  assumes "run_probes rt ps s = (None, s1)" and "signal s1 = None"
    and "call Probe p (arrivals rt s1) = (Returns False, s2)"
    and "signal_name rt (SIGABRT rt) \<noteq> None"
  shows "run_probes rt (ps @ p # qs) s = handle_shutdown rt (SIGABRT rt) (arrivals rt s2) \<and>
         calls_of Probe (trace (snd (run_probes rt (ps @ p # qs) s))) =
           calls_of Probe (trace s) @ map ident ps @ [ident p] \<and>
         signal (snd (run_probes rt (ps @ p # qs) s)) \<noteq> None \<and>
         (signal (arrivals rt s2) = None \<longrightarrow>
            signal (snd (run_probes rt (ps @ p # qs) s)) = Some (SIGABRT rt))"
proof -
  let ?h = "handle_shutdown rt (SIGABRT rt) (arrivals rt s2)"
  have "run_probes rt (p # qs) s1 = ?h"
  proof (cases ?h)
    case (Pair r2 t)
    show ?thesis
    proof (cases r2)
      case None
      then show ?thesis using Pair by (simp add: run_probes_step[OF assms(2,3)] del: run_probes.simps)
    next
      case (Some ex)
      then have "\<not> is_Exception ex"
        using handle_shutdown_not_Exception[OF assms(4)] Pair by blast
      then show ?thesis using Pair Some by (simp add: run_probes_step[OF assms(2,3)] del: run_probes.simps)
    qed
  qed
  then have eq: "run_probes rt (ps @ p # qs) s = ?h"
    using run_probes_append[OF assms(1,2), of "p # qs"] by (simp del: run_probes.simps)
  have "calls_of Probe (trace (snd ?h)) = calls_of Probe (trace (arrivals rt s2))"
    using fires_handle_shutdown[of "arrivals rt s2" rt "SIGABRT rt"] by (simp add: fires_def)
  then have cl: "calls_of Probe (trace (snd ?h)) = calls_of Probe (trace s) @ map ident ps @ [ident p]"
    using arrivals_Probe_calls[of rt s2] arrivals_Probe_calls[of rt s1] call_Probe_calls[OF assms(3)]
      run_probes_quiet_calls[OF assms(1,2)] by simp
  have sg: "signal (snd ?h) \<noteq> None" by (rule handle_shutdown_signal)
  have st: "signal (arrivals rt s2) = None \<longrightarrow> signal (snd ?h) = Some (SIGABRT rt)"
    using handle_shutdown_sets by blast
  show ?thesis unfolding eq using cl sg st by blast
qed

lemma monitor_while_triggered: "signal s \<noteq> None \<Longrightarrow> monitor_while rt s = Some (None, s)"
  by (subst monitor_while.simps) auto

lemma monitor_while_round:
  assumes "signal s = None" and "monitor_callables s = Some fs"
    and "run_probes rt fs s = (None, t)"
    and "sleeper_wait rt (Some (monitor_delay t)) t = Some (None, u)"
  shows "monitor_while rt s = monitor_while rt u"
  by (subst monitor_while.simps) (simp add: assms)

lemma run_probes_logged:
  "Log ERROR m \<in> set (trace s) \<Longrightarrow> Log ERROR m \<in> set (trace (snd (run_probes rt fs s)))"
proof -
  assume a: "Log ERROR m \<in> set (trace s)"
  have "polls s (snd (run_probes rt fs s))"
    by (rule polls_run_probes[of rt fs s "fst (run_probes rt fs s)"]) simp
  then show ?thesis using a by (auto simp: polls_def)
qed

text \<open>
  Claim C4 (probe fault isolation). When the probes before \<open>p\<close> have passed and \<open>p\<close> raises
  an \<open>Exception\<close>, the monitor logs one error record, whose text carries the formatted
  exception and \<open>str\<close> of the probe, and the round goes on with the probes registered after
  \<open>p\<close>. The raise is not read as "unhealthy": the cause after the record is the cause before
  it, and as long as none is recorded no shutdown action has been called. When the remaining
  probes pass too, every probe of the round has been called, in registration order. The loop
  is not left: after the round and its wait the monitor is where it is when it enters the
  loop in the state after the wait, with the same probes; there it returns if a cause has
  been recorded meanwhile, and polls all of them again if not.
\<close>

theorem probe_fault_isolated:
  assumes "run_probes rt ps s = (None, s1)" and "signal s1 = None"
    and "call Probe p (arrivals rt s1) = (Raises (Exception e), s2)"
  shows "run_probes rt (ps @ p # qs) s =
           run_probes rt qs (logger ERROR (failed_msg rt Probe (Exception e) p) (arrivals rt s2)) \<and>
         failed_msg rt Probe (Exception e) p =
           ''watchdog error: executing monitor callable failed: reason=''
             @ repr_list rt (map (\<lambda>item. replace_newline (strip item))
                               (format_exception_only rt (Exception e)))
             @ '' callable='' @ ident p \<and>
         Log ERROR (failed_msg rt Probe (Exception e) p)
           \<in> set (trace (snd (run_probes rt (ps @ p # qs) s))) \<and>
         signal (logger ERROR (failed_msg rt Probe (Exception e) p) (arrivals rt s2)) =
           signal (arrivals rt s2) \<and>
         (signal (arrivals rt s2) = None \<longrightarrow>
            calls_of ShutdownAction
              (trace (logger ERROR (failed_msg rt Probe (Exception e) p) (arrivals rt s2))) =
              calls_of ShutdownAction (trace s)) \<and>
         (\<forall>t. run_probes rt qs
                 (logger ERROR (failed_msg rt Probe (Exception e) p) (arrivals rt s2)) = (None, t) \<longrightarrow>
              signal t = None \<longrightarrow>
              calls_of Probe (trace t) = calls_of Probe (trace s) @ map ident (ps @ p # qs)) \<and>
         (monitor_callables s = Some (ps @ p # qs) \<longrightarrow>
            (\<forall>t u. run_probes rt qs
                     (logger ERROR (failed_msg rt Probe (Exception e) p) (arrivals rt s2)) = (None, t) \<longrightarrow>
                   sleeper_wait rt (Some (monitor_delay t)) t = Some (None, u) \<longrightarrow>
                   monitor_while rt s = monitor_while rt u \<and>
                   monitor_callables u = Some (ps @ p # qs) \<and>
                   (signal u \<noteq> None \<longrightarrow> monitor_while rt s = Some (None, u)) \<and>
                   (signal u = None \<longrightarrow>
                      monitor_while rt s =
                        (case run_probes rt (ps @ p # qs) u of
                           (Some ex, u1) \<Rightarrow> Some (Some ex, u1)
                         | (None, u1) \<Rightarrow>
                             (case sleeper_wait rt (Some (monitor_delay u1)) u1 of
                                None \<Rightarrow> None
                              | Some (Some ex, u2) \<Rightarrow> Some (Some ex, u2)
                              | Some (None, u2) \<Rightarrow> monitor_while rt u2)))))"
proof -
  let ?m = "failed_msg rt Probe (Exception e) p"
  let ?L = "logger ERROR ?m (arrivals rt s2)"
  have "run_probes rt (p # qs) s1 = run_probes rt qs ?L"
    by (simp add: run_probes_step[OF assms(2,3)] del: run_probes.simps)
  then have eq: "run_probes rt (ps @ p # qs) s = run_probes rt qs ?L"
    using run_probes_append[OF assms(1,2), of "p # qs"] by (simp del: run_probes.simps)
  have msg: "?m = ''watchdog error: executing monitor callable failed: reason=''
             @ repr_list rt (map (\<lambda>item. replace_newline (strip item))
                               (format_exception_only rt (Exception e)))
             @ '' callable='' @ ident p"
    by (simp add: failed_msg_text)
  have "Log ERROR ?m \<in> set (trace ?L)" by (simp add: logger_def)
  then have lg: "Log ERROR ?m \<in> set (trace (snd (run_probes rt (ps @ p # qs) s)))"
    unfolding eq by (rule run_probes_logged)
  have sg: "signal ?L = signal (arrivals rt s2)" by simp
  have p1: "polls s s1" using assms(1) by (rule polls_run_probes)
  have sN: "signal s = None" using p1 assms(2) by (auto simp: polls_def)
  have p2: "polls s1 ?L"
    using fires_polls[OF fires_arrivals[of s1 rt]] polls_call[OF assms(3)]
      fires_polls[OF fires_arrivals[of s2 rt]] polls_logger[of "arrivals rt s2"] polls_trans
    by blast
  have pL: "polls s ?L" using p1 p2 polls_trans by blast
  have q: "signal (arrivals rt s2) = None \<longrightarrow>
            calls_of ShutdownAction (trace ?L) = calls_of ShutdownAction (trace s)"
    using pL by (simp add: polls_def)
  have cL: "calls_of Probe (trace ?L) = calls_of Probe (trace s) @ map ident ps @ [ident p]"
    using arrivals_Probe_calls[of rt s2] arrivals_Probe_calls[of rt s1]
      call_Probe_calls[OF assms(3)] run_probes_quiet_calls[OF assms(1,2)]
    by (simp add: logger_def calls_of_append)
  have al: "\<forall>t. run_probes rt qs ?L = (None, t) \<longrightarrow> signal t = None \<longrightarrow>
              calls_of Probe (trace t) = calls_of Probe (trace s) @ map ident (ps @ p # qs)"
  proof (intro allI impI)
    fix t
    assume "run_probes rt qs ?L = (None, t)" and "signal t = None"
    then have "calls_of Probe (trace t) = calls_of Probe (trace ?L) @ map ident qs"
      by (rule run_probes_quiet_calls)
    then show "calls_of Probe (trace t) = calls_of Probe (trace s) @ map ident (ps @ p # qs)"
      using cL by simp
  qed
  have r: "monitor_callables s = Some (ps @ p # qs) \<longrightarrow>
            (\<forall>t u. run_probes rt qs ?L = (None, t) \<longrightarrow>
                   sleeper_wait rt (Some (monitor_delay t)) t = Some (None, u) \<longrightarrow>
                   monitor_while rt s = monitor_while rt u \<and>
                   monitor_callables u = Some (ps @ p # qs) \<and>
                   (signal u \<noteq> None \<longrightarrow> monitor_while rt s = Some (None, u)) \<and>
                   (signal u = None \<longrightarrow>
                      monitor_while rt s =
                        (case run_probes rt (ps @ p # qs) u of
                           (Some ex, u1) \<Rightarrow> Some (Some ex, u1)
                         | (None, u1) \<Rightarrow>
                             (case sleeper_wait rt (Some (monitor_delay u1)) u1 of
                                None \<Rightarrow> None
                              | Some (Some ex, u2) \<Rightarrow> Some (Some ex, u2)
                              | Some (None, u2) \<Rightarrow> monitor_while rt u2))))"
  proof (intro impI allI)
    fix t u
    assume mc: "monitor_callables s = Some (ps @ p # qs)"
      and rt: "run_probes rt qs ?L = (None, t)"
      and sw: "sleeper_wait rt (Some (monitor_delay t)) t = Some (None, u)"
    have round: "run_probes rt (ps @ p # qs) s = (None, t)" using eq rt by simp
    have 1: "monitor_while rt s = monitor_while rt u"
      by (rule monitor_while_round[OF sN mc round sw])
    have "polls s u"
      using polls_run_probes[OF round] polls_sleeper_wait[OF sw] polls_trans by blast
    then have 2: "monitor_callables u = Some (ps @ p # qs)" using mc by (simp add: polls_def)
    have 3: "signal u \<noteq> None \<longrightarrow> monitor_while rt s = Some (None, u)"
      unfolding 1 by (simp add: monitor_while_triggered)
    have 4: "signal u = None \<longrightarrow>
                      monitor_while rt s =
                        (case run_probes rt (ps @ p # qs) u of
                           (Some ex, u1) \<Rightarrow> Some (Some ex, u1)
                         | (None, u1) \<Rightarrow>
                             (case sleeper_wait rt (Some (monitor_delay u1)) u1 of
                                None \<Rightarrow> None
                              | Some (Some ex, u2) \<Rightarrow> Some (Some ex, u2)
                              | Some (None, u2) \<Rightarrow> monitor_while rt u2))"
      unfolding 1 by (rule impI, subst monitor_while.simps) (simp add: 2)
    show "monitor_while rt s = monitor_while rt u \<and>
                   monitor_callables u = Some (ps @ p # qs) \<and>
                   (signal u \<noteq> None \<longrightarrow> monitor_while rt s = Some (None, u)) \<and>
                   (signal u = None \<longrightarrow>
                      monitor_while rt s =
                        (case run_probes rt (ps @ p # qs) u of
                           (Some ex, u1) \<Rightarrow> Some (Some ex, u1)
                         | (None, u1) \<Rightarrow>
                             (case sleeper_wait rt (Some (monitor_delay u1)) u1 of
                                None \<Rightarrow> None
                              | Some (Some ex, u2) \<Rightarrow> Some (Some ex, u2)
                              | Some (None, u2) \<Rightarrow> monitor_while rt u2)))"
      using 1 2 3 4 by blast
  qed
  show ?thesis
    apply (intro conjI)
    using eq apply assumption
    using msg apply assumption
    using lg apply assumption
    using sg apply assumption
    using q apply assumption
    using al apply assumption
    using r apply assumption
    done
qed

theorem probe_short_circuit_witness:
  "run_probes cpython_linux [healthy] (polling\<lparr>monitor_callables := Some [healthy, flaky, healthy]\<rparr>) =
     (None, polling\<lparr>monitor_callables := Some [healthy, flaky, healthy],
                     trace := [Call Probe ''healthy'']\<rparr>) \<and>
   signal (polling\<lparr>monitor_callables := Some [healthy, flaky, healthy],
                   trace := [Call Probe ''healthy'']\<rparr>) = None \<and>
   call Probe flaky (arrivals cpython_linux
       (polling\<lparr>monitor_callables := Some [healthy, flaky, healthy],
                 trace := [Call Probe ''healthy'']\<rparr>)) =
     (Returns False, polling\<lparr>monitor_callables := Some [healthy, flaky, healthy], world := (3, []),
                              trace := [Call Probe ''healthy'', Call Probe ''flaky'']\<rparr>) \<and>
   signal_name cpython_linux (SIGABRT cpython_linux) \<noteq> None \<and>
   run_probes cpython_linux ([healthy] @ flaky # [healthy])
       (polling\<lparr>monitor_callables := Some [healthy, flaky, healthy]\<rparr>) =
     handle_shutdown cpython_linux (SIGABRT cpython_linux)
       (arrivals cpython_linux
          (polling\<lparr>monitor_callables := Some [healthy, flaky, healthy], world := (3, []),
                    trace := [Call Probe ''healthy'', Call Probe ''flaky'']\<rparr>)) \<and>
   calls_of Probe (trace (snd (run_probes cpython_linux ([healthy] @ flaky # [healthy])
       (polling\<lparr>monitor_callables := Some [healthy, flaky, healthy]\<rparr>)))) =
     calls_of Probe (trace (polling\<lparr>monitor_callables := Some [healthy, flaky, healthy]\<rparr>))
       @ map ident [healthy] @ [ident flaky] \<and>
   calls_of Probe (trace (polling\<lparr>monitor_callables := Some [healthy, flaky, healthy]\<rparr>))
       @ map ident [healthy] @ [ident flaky] = [''healthy'', ''flaky''] \<and>
   signal (arrivals cpython_linux
          (polling\<lparr>monitor_callables := Some [healthy, flaky, healthy], world := (3, []),
                    trace := [Call Probe ''healthy'', Call Probe ''flaky'']\<rparr>)) = None \<and>
   signal (snd (run_probes cpython_linux ([healthy] @ flaky # [healthy])
       (polling\<lparr>monitor_callables := Some [healthy, flaky, healthy]\<rparr>))) =
     Some (SIGABRT cpython_linux)"
proof -
  let ?s = "polling\<lparr>monitor_callables := Some [healthy, flaky, healthy]\<rparr>"
  let ?s1 = "polling\<lparr>monitor_callables := Some [healthy, flaky, healthy],
                     trace := [Call Probe ''healthy'']\<rparr>"
  let ?s2 = "polling\<lparr>monitor_callables := Some [healthy, flaky, healthy], world := (3, []),
                     trace := [Call Probe ''healthy'', Call Probe ''flaky'']\<rparr>"
  have a: "run_probes cpython_linux [healthy] ?s = (None, ?s1)"
    by (simp add: polling_def idle_def call_def healthy_def arrivals_def cpython_linux_def)
  have b: "signal ?s1 = None" by (simp add: polling_def idle_def)
  have c: "call Probe flaky (arrivals cpython_linux ?s1) = (Returns False, ?s2)"
    by (simp add: polling_def idle_def call_def flaky_def arrivals_def cpython_linux_def)
  have d: "signal_name cpython_linux (SIGABRT cpython_linux) \<noteq> None"
    by (simp add: cpython_linux_def)
  have e: "calls_of Probe (trace ?s) @ map ident [healthy] @ [ident flaky] = [''healthy'', ''flaky'']"
    by (simp add: polling_def idle_def healthy_def flaky_def)
  have f: "signal (arrivals cpython_linux ?s2) = None"
    by (simp add: polling_def idle_def arrivals_def cpython_linux_def)
  show ?thesis
    using a b c d e f probe_short_circuit[OF a b c d, of "[healthy]"]
    by blast
qed

lemma cpython_linux_arrive:
  "arrive cpython_linux (n, []) = ([], (n, []))"
  "arrive cpython_linux (n, b # q) = (b, (n, q))"
  by (simp_all add: cpython_linux_def)

lemma cpython_linux_TIMEOUT_MAX: "TIMEOUT_MAX cpython_linux = 9223372036"
  by (simp add: cpython_linux_def)

lemma cpython_linux_signal_name:
  "signal_name cpython_linux 15 = Some ''SIGTERM''"
  "signal_name cpython_linux 6 = Some ''SIGABRT''"
  by (simp_all add: cpython_linux_def)

theorem probe_fault_isolated_witness:
  "run_probes cpython_linux [healthy] wobbly = (None, wobbly\<lparr>world := (0, [[], [], [], [], [], [], [], [], [], [], [], [15]]), trace := [Call Probe ''healthy'']\<rparr>) \<and>
   signal (wobbly\<lparr>world := (0, [[], [], [], [], [], [], [], [], [], [], [], [15]]), trace := [Call Probe ''healthy'']\<rparr>) = None \<and>
   call Probe faulty (arrivals cpython_linux (wobbly\<lparr>world := (0, [[], [], [], [], [], [], [], [], [], [], [], [15]]), trace := [Call Probe ''healthy'']\<rparr>)) =
     (Raises (Exception ''RuntimeError: boom''), wobbly\<lparr>world := (0, [[], [], [], [], [], [], [], [], [], [], [15]]), trace := [Call Probe ''healthy'', Call Probe ''faulty'']\<rparr>) \<and>
   run_probes cpython_linux ([healthy] @ faulty # [healthy]) wobbly =
     run_probes cpython_linux [healthy] (logger ERROR (failed_msg cpython_linux Probe (Exception ''RuntimeError: boom'') faulty) (arrivals cpython_linux (wobbly\<lparr>world := (0, [[], [], [], [], [], [], [], [], [], [], [15]]), trace := [Call Probe ''healthy'', Call Probe ''faulty'']\<rparr>))) \<and>
   failed_msg cpython_linux Probe (Exception ''RuntimeError: boom'') faulty =
     ''watchdog error: executing monitor callable failed: reason=['' @ [CHR 0x27]
       @ ''RuntimeError: boom'' @ [CHR 0x27] @ ''] callable=faulty'' \<and>
   Log ERROR (failed_msg cpython_linux Probe (Exception ''RuntimeError: boom'') faulty) \<in> set (trace (snd (run_probes cpython_linux ([healthy] @ faulty # [healthy]) wobbly))) \<and>
   signal (logger ERROR (failed_msg cpython_linux Probe (Exception ''RuntimeError: boom'') faulty) (arrivals cpython_linux (wobbly\<lparr>world := (0, [[], [], [], [], [], [], [], [], [], [], [15]]), trace := [Call Probe ''healthy'', Call Probe ''faulty'']\<rparr>))) = signal (arrivals cpython_linux (wobbly\<lparr>world := (0, [[], [], [], [], [], [], [], [], [], [], [15]]), trace := [Call Probe ''healthy'', Call Probe ''faulty'']\<rparr>)) \<and>
   signal (arrivals cpython_linux (wobbly\<lparr>world := (0, [[], [], [], [], [], [], [], [], [], [], [15]]), trace := [Call Probe ''healthy'', Call Probe ''faulty'']\<rparr>)) = None \<and>
   calls_of ShutdownAction (trace (logger ERROR (failed_msg cpython_linux Probe (Exception ''RuntimeError: boom'') faulty) (arrivals cpython_linux (wobbly\<lparr>world := (0, [[], [], [], [], [], [], [], [], [], [], [15]]), trace := [Call Probe ''healthy'', Call Probe ''faulty'']\<rparr>)))) = calls_of ShutdownAction (trace wobbly) \<and>
   run_probes cpython_linux [healthy] (logger ERROR (failed_msg cpython_linux Probe (Exception ''RuntimeError: boom'') faulty) (arrivals cpython_linux (wobbly\<lparr>world := (0, [[], [], [], [], [], [], [], [], [], [], [15]]), trace := [Call Probe ''healthy'', Call Probe ''faulty'']\<rparr>))) = (None, wobbly\<lparr>world := (0, [[], [], [], [], [], [], [], [15]]), trace := [Call Probe ''healthy'', Call Probe ''faulty'', Log ERROR (failed_msg cpython_linux Probe (Exception ''RuntimeError: boom'') faulty), Call Probe ''healthy'']\<rparr>) \<and>
   signal (wobbly\<lparr>world := (0, [[], [], [], [], [], [], [], [15]]), trace := [Call Probe ''healthy'', Call Probe ''faulty'', Log ERROR (failed_msg cpython_linux Probe (Exception ''RuntimeError: boom'') faulty), Call Probe ''healthy'']\<rparr>) = None \<and>
   calls_of Probe (trace (wobbly\<lparr>world := (0, [[], [], [], [], [], [], [], [15]]), trace := [Call Probe ''healthy'', Call Probe ''faulty'', Log ERROR (failed_msg cpython_linux Probe (Exception ''RuntimeError: boom'') faulty), Call Probe ''healthy'']\<rparr>)) =
     calls_of Probe (trace wobbly) @ map ident ([healthy] @ faulty # [healthy]) \<and>
   monitor_callables wobbly = Some ([healthy] @ faulty # [healthy]) \<and>
   sleeper_wait cpython_linux (Some (monitor_delay (wobbly\<lparr>world := (0, [[], [], [], [], [], [], [], [15]]), trace := [Call Probe ''healthy'', Call Probe ''faulty'', Log ERROR (failed_msg cpython_linux Probe (Exception ''RuntimeError: boom'') faulty), Call Probe ''healthy'']\<rparr>))) (wobbly\<lparr>world := (0, [[], [], [], [], [], [], [], [15]]), trace := [Call Probe ''healthy'', Call Probe ''faulty'', Log ERROR (failed_msg cpython_linux Probe (Exception ''RuntimeError: boom'') faulty), Call Probe ''healthy'']\<rparr>) = Some (None, wobbly\<lparr>world := (0, [[], [], [], [], [], [], [15]]), trace := [Call Probe ''healthy'', Call Probe ''faulty'', Log ERROR (failed_msg cpython_linux Probe (Exception ''RuntimeError: boom'') faulty), Call Probe ''healthy'', Block (Some 2), Resume False]\<rparr>) \<and>
   monitor_while cpython_linux wobbly = monitor_while cpython_linux (wobbly\<lparr>world := (0, [[], [], [], [], [], [], [15]]), trace := [Call Probe ''healthy'', Call Probe ''faulty'', Log ERROR (failed_msg cpython_linux Probe (Exception ''RuntimeError: boom'') faulty), Call Probe ''healthy'', Block (Some 2), Resume False]\<rparr>) \<and>
   monitor_callables (wobbly\<lparr>world := (0, [[], [], [], [], [], [], [15]]), trace := [Call Probe ''healthy'', Call Probe ''faulty'', Log ERROR (failed_msg cpython_linux Probe (Exception ''RuntimeError: boom'') faulty), Call Probe ''healthy'', Block (Some 2), Resume False]\<rparr>) = Some ([healthy] @ faulty # [healthy]) \<and>
   monitor_while cpython_linux wobbly = Some (None, wobbly\<lparr>sleeper := True, signal := Some 15, world := (0, []), trace := [Call Probe ''healthy'', Call Probe ''faulty'', Log ERROR (failed_msg cpython_linux Probe (Exception ''RuntimeError: boom'') faulty), Call Probe ''healthy'', Block (Some 2), Resume False, Call Probe ''healthy'', Call Probe ''faulty'', Log ERROR (failed_msg cpython_linux Probe (Exception ''RuntimeError: boom'') faulty), Call Probe ''healthy'', Block (Some 2), Log WARNING (caught_msg ''SIGTERM''), Log INFO (log_msg_prefix @ '': initiating shutdown ...''), Call ShutdownAction ''cleanup'', Call ShutdownAction ''faulty'', Log ERROR (failed_msg cpython_linux ShutdownAction (Exception ''RuntimeError: boom'') faulty), Call ShutdownAction ''cleanup'', Resume True]\<rparr>) \<and>
   calls_of Probe (trace (wobbly\<lparr>sleeper := True, signal := Some 15, world := (0, []), trace := [Call Probe ''healthy'', Call Probe ''faulty'', Log ERROR (failed_msg cpython_linux Probe (Exception ''RuntimeError: boom'') faulty), Call Probe ''healthy'', Block (Some 2), Resume False, Call Probe ''healthy'', Call Probe ''faulty'', Log ERROR (failed_msg cpython_linux Probe (Exception ''RuntimeError: boom'') faulty), Call Probe ''healthy'', Block (Some 2), Log WARNING (caught_msg ''SIGTERM''), Log INFO (log_msg_prefix @ '': initiating shutdown ...''), Call ShutdownAction ''cleanup'', Call ShutdownAction ''faulty'', Log ERROR (failed_msg cpython_linux ShutdownAction (Exception ''RuntimeError: boom'') faulty), Call ShutdownAction ''cleanup'', Resume True]\<rparr>)) =
     [''healthy'', ''faulty'', ''healthy'', ''healthy'', ''faulty'', ''healthy'']"
proof -
  let ?m = "failed_msg cpython_linux Probe (Exception ''RuntimeError: boom'') faulty"
  let ?s1 = "wobbly\<lparr>world := (0, [[], [], [], [], [], [], [], [], [], [], [], [15]]), trace := [Call Probe ''healthy'']\<rparr>"
  let ?s2 = "wobbly\<lparr>world := (0, [[], [], [], [], [], [], [], [], [], [], [15]]), trace := [Call Probe ''healthy'', Call Probe ''faulty'']\<rparr>"
  let ?L = "logger ERROR ?m (arrivals cpython_linux ?s2)"
  let ?t = "wobbly\<lparr>world := (0, [[], [], [], [], [], [], [], [15]]), trace := [Call Probe ''healthy'', Call Probe ''faulty'', Log ERROR (failed_msg cpython_linux Probe (Exception ''RuntimeError: boom'') faulty), Call Probe ''healthy'']\<rparr>"
  let ?u = "wobbly\<lparr>world := (0, [[], [], [], [], [], [], [15]]), trace := [Call Probe ''healthy'', Call Probe ''faulty'', Log ERROR (failed_msg cpython_linux Probe (Exception ''RuntimeError: boom'') faulty), Call Probe ''healthy'', Block (Some 2), Resume False]\<rparr>"
  let ?t2 = "wobbly\<lparr>world := (0, [[15]]), trace := [Call Probe ''healthy'', Call Probe ''faulty'', Log ERROR (failed_msg cpython_linux Probe (Exception ''RuntimeError: boom'') faulty), Call Probe ''healthy'', Block (Some 2), Resume False, Call Probe ''healthy'', Call Probe ''faulty'', Log ERROR (failed_msg cpython_linux Probe (Exception ''RuntimeError: boom'') faulty), Call Probe ''healthy'']\<rparr>"
  let ?v = "wobbly\<lparr>sleeper := True, signal := Some 15, world := (0, []), trace := [Call Probe ''healthy'', Call Probe ''faulty'', Log ERROR (failed_msg cpython_linux Probe (Exception ''RuntimeError: boom'') faulty), Call Probe ''healthy'', Block (Some 2), Resume False, Call Probe ''healthy'', Call Probe ''faulty'', Log ERROR (failed_msg cpython_linux Probe (Exception ''RuntimeError: boom'') faulty), Call Probe ''healthy'', Block (Some 2), Log WARNING (caught_msg ''SIGTERM''), Log INFO (log_msg_prefix @ '': initiating shutdown ...''), Call ShutdownAction ''cleanup'', Call ShutdownAction ''faulty'', Log ERROR (failed_msg cpython_linux ShutdownAction (Exception ''RuntimeError: boom'') faulty), Call ShutdownAction ''cleanup'', Resume True]\<rparr>"
  note ev = wobbly_def polling_def idle_def call_def healthy_def faulty_def cleanup_def arrivals_def
    logger_def cpython_linux_arrive
  have a: "run_probes cpython_linux [healthy] wobbly = (None, ?s1)" by (simp add: ev)
  have b: "signal ?s1 = None" by (simp add: ev)
  have c: "call Probe faulty (arrivals cpython_linux ?s1) =
     (Raises (Exception ''RuntimeError: boom''), ?s2)" by (simp add: ev)
  have mt: "?m = ''watchdog error: executing monitor callable failed: reason=['' @ [CHR 0x27]
       @ ''RuntimeError: boom'' @ [CHR 0x27] @ ''] callable=faulty''"
    by (simp add: failed_msg_def log_err_msg_prefix_def log_msg_prefix_def get_exception_str_def
        cpython_linux_def faulty_def strip_def is_space_def replace_newline_def py_repr_def
        py_escape_def Let_def)
  have d: "signal (arrivals cpython_linux ?s2) = None" by (simp add: ev)
  have e: "run_probes cpython_linux [healthy] ?L = (None, ?t)" by (simp add: ev)
  have f: "signal ?t = None" by (simp add: ev)
  have g: "monitor_callables wobbly = Some ([healthy] @ faulty # [healthy])" by (simp add: ev)
  have h: "sleeper_wait cpython_linux (Some (monitor_delay ?t)) ?t = Some (None, ?u)"
    by (simp add: ev sleeper_wait_def cpython_linux_TIMEOUT_MAX)
  have u0: "signal ?u = None" by (simp add: ev)
  have u1: "monitor_callables ?u = Some [healthy, faulty, healthy]" by (simp add: ev)
  have u2: "run_probes cpython_linux [healthy, faulty, healthy] ?u = (None, ?t2)" by (simp add: ev)
  have u3: "sleeper_wait cpython_linux (Some (monitor_delay ?t2)) ?t2 = Some (None, ?v)"
    by (simp add: ev sleeper_wait_def cpython_linux_TIMEOUT_MAX deliver_def handle_shutdown_def
        cpython_linux_signal_name Let_def)
  have u4: "signal ?v \<noteq> None" by (simp add: ev)
  have k: "monitor_while cpython_linux ?u = Some (None, ?v)"
    using monitor_while_round[OF u0 u1 u2 u3] monitor_while_triggered[OF u4] by simp
  have cv: "calls_of Probe (trace ?v) =
     [''healthy'', ''faulty'', ''healthy'', ''healthy'', ''faulty'', ''healthy'']"
    by (simp add: ev)
  note th = probe_fault_isolated[OF a b c, of "[healthy]"]
  note t1 = th[THEN conjunct1]
  note t3 = th[THEN conjunct2, THEN conjunct2, THEN conjunct1]
  note t4 = th[THEN conjunct2, THEN conjunct2, THEN conjunct2, THEN conjunct1]
  note t5 = th[THEN conjunct2, THEN conjunct2, THEN conjunct2, THEN conjunct2, THEN conjunct1,
      THEN mp, OF d]
  note t6 = th[THEN conjunct2, THEN conjunct2, THEN conjunct2, THEN conjunct2, THEN conjunct2,
      THEN conjunct1, THEN spec, THEN mp, OF e, THEN mp, OF f]
  note t7 = th[THEN conjunct2, THEN conjunct2, THEN conjunct2, THEN conjunct2, THEN conjunct2,
      THEN conjunct2, THEN mp, OF g, THEN spec, THEN spec, THEN mp, OF e, THEN mp, OF h]
  note t71 = t7[THEN conjunct1]
  note t72 = t7[THEN conjunct2, THEN conjunct1]
  have fin: "monitor_while cpython_linux wobbly = Some (None, ?v)"
    using t71 k by simp
  show ?thesis
    using a b c t1 mt t3 t4 d t5 e f t6 g h t71 t72 fin cv
    apply (intro conjI)
                     apply assumption+
    done
qed

subsection \<open>The loop after the trigger\<close>

lemma sleeper_wait_set: "sleeper s \<Longrightarrow> sleeper_wait rt t s = Some (None, s)"
  by (simp add: sleeper_wait_def)

lemma monitor_triggered:
  "signal s \<noteq> None \<Longrightarrow> sleeper s \<Longrightarrow> monitor rt s = Some (None, s)"
  by (auto simp: monitor_def sleeper_wait_set)

lemma monitor_while_exit:
  assumes run: "monitor_while rt0 s0 = Some y0"
  shows "fst y0 = None \<longrightarrow> signal (snd y0) \<noteq> None"
proof (rule monitor_while.raw_induct[where P = "\<lambda>rt s y. fst y = None \<longrightarrow> signal (snd y) \<noteq> None",
      OF _ run], goal_cases)
  case (1 mw rt s y)
  show ?case
  proof (cases "signal s = None")
    case False
    then show ?thesis using 1(2) by auto
  next
    case True
    show ?thesis
    proof (cases "monitor_callables s")
      case None
      then show ?thesis using 1(2) True by auto
    next
      case (Some fs)
      note mc = this
      obtain r s1 where rp: "run_probes rt fs s = (r, s1)" by (cases "run_probes rt fs s")
      show ?thesis
      proof (cases r)
        case (Some ex)
        then show ?thesis using 1(2) True mc rp by auto
      next
        case None
        note rn = this
        show ?thesis
        proof (cases "sleeper_wait rt (Some (monitor_delay s1)) s1")
          case None
          then show ?thesis using 1(2) True mc rp rn by simp
        next
          case (Some w)
          note sw = this
          obtain r2 s2 where w: "w = (r2, s2)" by (cases w)
          show ?thesis
          proof (cases r2)
            case None
            then have "mw rt s2 = Some y" using 1(2) True mc rp rn sw w by simp
            then show ?thesis by (rule 1(1))
          next
            case (Some ex)
            then show ?thesis using 1(2) True mc rp rn sw w by auto
          qed
        qed
      qed
    qed
  qed
qed

lemma fold_deliver_handled:
  "n \<in> set sigs \<Longrightarrow> n \<in> handlers s \<Longrightarrow> (signal s \<noteq> None \<longrightarrow> sleeper s) \<Longrightarrow>
   signal (fold (deliver rt) sigs s) \<noteq> None \<and> sleeper (fold (deliver rt) sigs s)"
proof (induction sigs arbitrary: s)
  case Nil
  then show ?case by simp
next
  case (Cons a sigs)
  let ?s1 = "deliver rt a s"
  have f: "fires s ?s1" by (rule fires_deliver)
  then have h: "handlers ?s1 = handlers s" by (simp add: fires_def)
  have inv: "signal ?s1 \<noteq> None \<longrightarrow> sleeper ?s1"
    using f Cons.prems(3) by (cases "signal s") (auto simp: fires_def)
  show ?case
  proof (cases "n \<in> set sigs")
    case True
    then show ?thesis using Cons.IH[of ?s1] h inv Cons.prems(2) by simp
  next
    case False
    then have an: "a = n" using Cons.prems(1) by simp
    have "signal ?s1 \<noteq> None"
    proof (cases "signal s = None")
      case True
      obtain r s1 where hs: "handle_shutdown rt n s = (r, s1)" by (cases "handle_shutdown rt n s")
      then have "signal s1 \<noteq> None" using handle_shutdown_signal[of rt n s] by simp
      then show ?thesis using hs an Cons.prems(2) by (cases r) (simp_all add: deliver_def)
    next
      case False
      then show ?thesis using f by (auto simp: fires_def)
    qed
    moreover have "fires ?s1 (fold (deliver rt) sigs ?s1)" by (rule fires_fold_deliver)
    ultimately show ?thesis using inv by (auto simp: fires_def)
  qed
qed

lemma fold_deliver_unhandled:
  "\<forall>n \<in> set sigs. n \<notin> handlers s \<Longrightarrow> fold (deliver rt) sigs s = s"
  by (induction sigs) (simp_all add: deliver_def)

lemma arrivals_handled:
  assumes "n \<in> set (fst (arrive rt (world s)))" and "n \<in> handlers s"
    and "signal s \<noteq> None \<longrightarrow> sleeper s"
  shows "signal (arrivals rt s) \<noteq> None \<and> sleeper (arrivals rt s)"
proof -
  obtain sigs w where a: "arrive rt (world s) = (sigs, w)" by (cases "arrive rt (world s)")
  have "signal (fold (deliver rt) sigs (s\<lparr>world := w\<rparr>)) \<noteq> None \<and>
        sleeper (fold (deliver rt) sigs (s\<lparr>world := w\<rparr>))"
    by (rule fold_deliver_handled[of n]) (use assms a in simp_all)
  then show ?thesis using a by (simp add: arrivals_def)
qed

lemma arrivals_unhandled:
  assumes "\<forall>n \<in> set (fst (arrive rt (world s))). n \<notin> handlers s"
  shows "arrivals rt s = s\<lparr>world := snd (arrive rt (world s))\<rparr>"
proof -
  obtain sigs w where a: "arrive rt (world s) = (sigs, w)" by (cases "arrive rt (world s)")
  have "fold (deliver rt) sigs (s\<lparr>world := w\<rparr>) = s\<lparr>world := w\<rparr>"
    by (rule fold_deliver_unhandled) (use assms a in simp)
  then show ?thesis using a by (simp add: arrivals_def)
qed

lemma sleeper_wait_woken:
  assumes "signal s = None" and "\<not> sleeper s"
    and "t = None \<or> (\<exists>d. t = Some d \<and> 0 < d \<and> d \<le> TIMEOUT_MAX rt)"
    and "n \<in> set (fst (arrive rt (world s)))" and "n \<in> handlers s"
  shows "\<exists>s'. sleeper_wait rt t s = Some (None, s') \<and> signal s' \<noteq> None \<and> sleeper s' \<and>
              (\<exists>es. trace s' = trace s @ Block t # es @ [Resume True])"
proof -
  let ?s0 = "s\<lparr>trace := trace s @ [Block t]\<rparr>"
  let ?s1 = "arrivals rt ?s0"
  let ?s2 = "?s1\<lparr>trace := trace ?s1 @ [Resume True]\<rparr>"
  have b: "signal ?s1 \<noteq> None \<and> sleeper ?s1"
    by (rule arrivals_handled[of n]) (use assms in simp_all)
  have "fires ?s0 ?s1" by (rule fires_arrivals)
  then obtain es where "trace ?s1 = trace ?s0 @ es" by (auto simp: fires_def)
  then have tr: "trace ?s2 = trace s @ Block t # es @ [Resume True]" by simp
  have "sleeper_wait rt t s = Some (None, ?s2)"
    using assms(2,3) b by (auto simp: sleeper_wait_def Let_def)
  moreover have "signal ?s2 \<noteq> None \<and> sleeper ?s2" using b by simp
  ultimately show ?thesis using tr by blast
qed

lemma sleeper_wait_timed_out:
  assumes "\<not> sleeper s" and "0 < d" and "d \<le> TIMEOUT_MAX rt"
    and "\<forall>n \<in> set (fst (arrive rt (world s))). n \<notin> handlers s"
  shows "sleeper_wait rt (Some d) s =
           Some (None, s\<lparr>world := snd (arrive rt (world s)),
                         trace := trace s @ [Block (Some d), Resume False]\<rparr>)"
proof -
  let ?s0 = "s\<lparr>trace := trace s @ [Block (Some d)]\<rparr>"
  have "arrivals rt ?s0 = ?s0\<lparr>world := snd (arrive rt (world ?s0))\<rparr>"
    by (rule arrivals_unhandled) (use assms(4) in simp)
  then show ?thesis using assms(1,2,3) by (simp add: sleeper_wait_def Let_def)
qed

lemma run_probes_in_flight:
  assumes "signal s = None" and "call Probe f (arrivals rt s) = (out, s0)"
    and "signal (arrivals rt s0) \<noteq> None"
  shows "calls_of Probe (trace (snd (run_probes rt (f # fs) s))) = calls_of Probe (trace s) @ [ident f]"
proof -
  let ?s1 = "arrivals rt s0"
  have c1: "calls_of Probe (trace ?s1) = calls_of Probe (trace s) @ [ident f]"
    using call_Probe_calls[OF assms(2)] arrivals_Probe_calls[of rt s0] arrivals_Probe_calls[of rt s]
    by simp
  have hs: "handle_shutdown rt (SIGABRT rt) ?s1 = (None, ?s1)"
    using assms(3) by (rule handle_shutdown_triggered)
  have r1: "run_probes rt fs ?s1 = (None, ?s1)" using assms(3) by (rule run_probes_triggered)
  have r2: "\<And>m. run_probes rt fs (logger ERROR m ?s1) = (None, logger ERROR m ?s1)"
    using assms(3) by (intro run_probes_triggered) simp
  have c2: "\<And>m. calls_of Probe (trace (logger ERROR m ?s1)) = calls_of Probe (trace s) @ [ident f]"
    using c1 by (simp add: logger_def calls_of_append)
  show ?thesis
    unfolding run_probes_step[OF assms(1,2)]
    by (cases out) (simp_all add: hs r1 r2 c1 c2 del: run_probes.simps)
qed

text \<open>
  Claim C8, as stated, fails: nothing orders the handler and the steps of the loop. When
  \<open>SIGTERM\<close> is handled after the test of line 77 and before the call of line 80, the
  cause is recorded, with no probe called so far, and the probe is evaluated all the same.
\<close>

theorem probe_after_trigger:
  "signal racing = None \<and>
   signal (arrivals cpython_linux racing) = Some 15 \<and>
   calls_of Probe (trace (arrivals cpython_linux racing)) = [] \<and>
   monitor_while cpython_linux racing =
     Some (None, racing\<lparr>sleeper := True, signal := Some 15, world := (0, []),
       trace := [Log WARNING (caught_msg ''SIGTERM''), Log INFO (log_msg_prefix @ '': initiating shutdown ...''), Call ShutdownAction ''cleanup'', Call ShutdownAction ''faulty'', Log ERROR (failed_msg cpython_linux ShutdownAction (Exception ''RuntimeError: boom'') faulty), Call ShutdownAction ''cleanup'', Call Probe ''healthy'']\<rparr>) \<and>
   calls_of Probe [Log WARNING (caught_msg ''SIGTERM''), Log INFO (log_msg_prefix @ '': initiating shutdown ...''), Call ShutdownAction ''cleanup'', Call ShutdownAction ''faulty'', Log ERROR (failed_msg cpython_linux ShutdownAction (Exception ''RuntimeError: boom'') faulty), Call ShutdownAction ''cleanup'', Call Probe ''healthy''] = [''healthy'']"
proof -
  note ev = racing_def polling_def idle_def call_def healthy_def faulty_def cleanup_def arrivals_def
    logger_def cpython_linux_arrive deliver_def handle_shutdown_def cpython_linux_signal_name Let_def
  let ?v = "racing\<lparr>sleeper := True, signal := Some 15, world := (0, []),
       trace := [Log WARNING (caught_msg ''SIGTERM''), Log INFO (log_msg_prefix @ '': initiating shutdown ...''), Call ShutdownAction ''cleanup'', Call ShutdownAction ''faulty'', Log ERROR (failed_msg cpython_linux ShutdownAction (Exception ''RuntimeError: boom'') faulty), Call ShutdownAction ''cleanup'', Call Probe ''healthy'']\<rparr>"
  have a: "signal racing = None" by (simp add: ev)
  have b: "signal (arrivals cpython_linux racing) = Some 15" by (simp add: ev)
  have c: "calls_of Probe (trace (arrivals cpython_linux racing)) = []" by (simp add: ev)
  have m: "monitor_callables racing = Some [healthy, flaky]" by (simp add: ev)
  have r: "run_probes cpython_linux [healthy, flaky] racing = (None, ?v)" by (simp add: ev)
  have w: "sleeper_wait cpython_linux (Some (monitor_delay ?v)) ?v = Some (None, ?v)"
    by (simp add: sleeper_wait_def)
  have v: "signal ?v \<noteq> None" by simp
  have d: "monitor_while cpython_linux racing = Some (None, ?v)"
    using monitor_while_round[OF a m r w] monitor_while_triggered[OF v] by simp
  have e: "calls_of Probe [Log WARNING (caught_msg ''SIGTERM''), Log INFO (log_msg_prefix @ '': initiating shutdown ...''), Call ShutdownAction ''cleanup'', Call ShutdownAction ''faulty'', Log ERROR (failed_msg cpython_linux ShutdownAction (Exception ''RuntimeError: boom'') faulty), Call ShutdownAction ''cleanup'', Call Probe ''healthy''] = [''healthy'']" by simp
  show ?thesis using a b c d e by (intro conjI)
qed

text \<open>
  Claim C8, amended. Once a test of the loop (line 75 or line 77) finds a cause recorded, the
  loop is over for good: it returns at once, calls no probe and changes nothing. A wait on a
  set flag returns at once whatever its timeout, so with the cause recorded and the flag set
  the whole thread target returns at once, the start delay included. The trigger sets cause
  and flag together, and the loop returns normally only with a cause recorded. A handled
  signal that arrives while the thread is blocked on the flag, with or without a timeout,
  ends that wait: the wait returns because the flag was set (\<open>Resume True\<close>), with the cause
  recorded, and the loop entered after it returns at once; a timed wait during which no
  handled signal arrives returns because its timeout ran out (\<open>Resume False\<close>). What the
  loop can still do after the cause is recorded is finish the step it is in: when the cause
  is recorded between the test of line 77 and the return of the probe, that probe is the
  last one called in the round. Time is not part of the model: "promptly" is read as "by
  the flag, not by the timeout".
\<close>

theorem loop_exits_once_triggered:
  "(signal s \<noteq> None \<longrightarrow>
      monitor_while rt s = Some (None, s) \<and> run_probes rt fs s = (None, s)) \<and>
   (sleeper s \<longrightarrow> sleeper_wait rt t s = Some (None, s)) \<and>
   (signal s \<noteq> None \<and> sleeper s \<longrightarrow> monitor rt s = Some (None, s)) \<and>
   (signal s = None \<longrightarrow>
      signal (snd (handle_shutdown rt n s)) = Some n \<and> sleeper (snd (handle_shutdown rt n s))) \<and>
   (monitor_while rt s = Some (None, s') \<longrightarrow>
      signal s' \<noteq> None \<and> monitor_while rt s' = Some (None, s') \<and>
      ((signal s \<noteq> None \<longrightarrow> sleeper s) \<longrightarrow> sleeper s')) \<and>
   (signal s = None \<and> \<not> sleeper s \<and>
    (t = None \<or> (\<exists>d. t = Some d \<and> 0 < d \<and> d \<le> TIMEOUT_MAX rt)) \<and>
    n \<in> set (fst (arrive rt (world s))) \<and> n \<in> handlers s \<longrightarrow>
      (\<exists>s'. sleeper_wait rt t s = Some (None, s') \<and> signal s' \<noteq> None \<and> sleeper s' \<and>
            (\<exists>es. trace s' = trace s @ Block t # es @ [Resume True]) \<and>
            monitor_while rt s' = Some (None, s'))) \<and>
   (\<not> sleeper s \<and> 0 < d \<and> d \<le> TIMEOUT_MAX rt \<and>
    (\<forall>k \<in> set (fst (arrive rt (world s))). k \<notin> handlers s) \<longrightarrow>
      sleeper_wait rt (Some d) s =
        Some (None, s\<lparr>world := snd (arrive rt (world s)),
                      trace := trace s @ [Block (Some d), Resume False]\<rparr>)) \<and>
   (signal s = None \<and> call Probe f (arrivals rt s) = (out, s0) \<and>
    signal (arrivals rt s0) \<noteq> None \<longrightarrow>
      calls_of Probe (trace (snd (run_probes rt (f # fs) s))) =
        calls_of Probe (trace s) @ [ident f])"
proof -
  have 1: "signal s \<noteq> None \<longrightarrow>
      monitor_while rt s = Some (None, s) \<and> run_probes rt fs s = (None, s)"
    by (simp add: monitor_while_triggered run_probes_triggered)
  have 2: "sleeper s \<longrightarrow> sleeper_wait rt t s = Some (None, s)"
    by (simp add: sleeper_wait_set)
  have 3: "signal s \<noteq> None \<and> sleeper s \<longrightarrow> monitor rt s = Some (None, s)"
    by (simp add: monitor_triggered)
  have 4: "signal s = None \<longrightarrow>
      signal (snd (handle_shutdown rt n s)) = Some n \<and> sleeper (snd (handle_shutdown rt n s))"
    using handle_shutdown_sets[of s rt n] by simp
  have 5: "monitor_while rt s = Some (None, s') \<longrightarrow>
      signal s' \<noteq> None \<and> monitor_while rt s' = Some (None, s') \<and>
      ((signal s \<noteq> None \<longrightarrow> sleeper s) \<longrightarrow> sleeper s')"
  proof
    assume run: "monitor_while rt s = Some (None, s')"
    have a: "signal s' \<noteq> None" using monitor_while_exit[OF run] by simp
    have "polls s s'" using polls_monitor_while[OF run] by simp
    then have "(signal s \<noteq> None \<longrightarrow> sleeper s) \<longrightarrow> sleeper s'"
      using a by (simp add: polls_def)
    then show "signal s' \<noteq> None \<and> monitor_while rt s' = Some (None, s') \<and>
      ((signal s \<noteq> None \<longrightarrow> sleeper s) \<longrightarrow> sleeper s')"
      using a by (simp add: monitor_while_triggered)
  qed
  have 6: "signal s = None \<and> \<not> sleeper s \<and>
    (t = None \<or> (\<exists>d. t = Some d \<and> 0 < d \<and> d \<le> TIMEOUT_MAX rt)) \<and>
    n \<in> set (fst (arrive rt (world s))) \<and> n \<in> handlers s \<longrightarrow>
      (\<exists>s'. sleeper_wait rt t s = Some (None, s') \<and> signal s' \<noteq> None \<and> sleeper s' \<and>
            (\<exists>es. trace s' = trace s @ Block t # es @ [Resume True]) \<and>
            monitor_while rt s' = Some (None, s'))"
  proof
    assume a: "signal s = None \<and> \<not> sleeper s \<and>
      (t = None \<or> (\<exists>d. t = Some d \<and> 0 < d \<and> d \<le> TIMEOUT_MAX rt)) \<and>
      n \<in> set (fst (arrive rt (world s))) \<and> n \<in> handlers s"
    have "\<exists>s'. sleeper_wait rt t s = Some (None, s') \<and> signal s' \<noteq> None \<and> sleeper s' \<and>
              (\<exists>es. trace s' = trace s @ Block t # es @ [Resume True])"
      by (rule sleeper_wait_woken[of s t rt n]) (use a in simp_all)
    then obtain s' where b: "sleeper_wait rt t s = Some (None, s')" "signal s' \<noteq> None" "sleeper s'"
      "\<exists>es. trace s' = trace s @ Block t # es @ [Resume True]" by blast
    have "monitor_while rt s' = Some (None, s')" using b(2) by (rule monitor_while_triggered)
    then show "\<exists>s'. sleeper_wait rt t s = Some (None, s') \<and> signal s' \<noteq> None \<and> sleeper s' \<and>
            (\<exists>es. trace s' = trace s @ Block t # es @ [Resume True]) \<and>
            monitor_while rt s' = Some (None, s')"
      using b by blast
  qed
  have 7: "\<not> sleeper s \<and> 0 < d \<and> d \<le> TIMEOUT_MAX rt \<and>
    (\<forall>k \<in> set (fst (arrive rt (world s))). k \<notin> handlers s) \<longrightarrow>
      sleeper_wait rt (Some d) s =
        Some (None, s\<lparr>world := snd (arrive rt (world s)),
                      trace := trace s @ [Block (Some d), Resume False]\<rparr>)"
    using sleeper_wait_timed_out[of s d rt] by blast
  have 8: "signal s = None \<and> call Probe f (arrivals rt s) = (out, s0) \<and>
    signal (arrivals rt s0) \<noteq> None \<longrightarrow>
      calls_of Probe (trace (snd (run_probes rt (f # fs) s))) =
        calls_of Probe (trace s) @ [ident f]"
    using run_probes_in_flight[of s f rt out s0 fs] by blast
  show ?thesis using 1 2 3 4 5 6 7 8 by (intro conjI)
qed

theorem loop_exits_once_triggered_witness:
  "signal fired \<noteq> None \<and> sleeper fired \<and>
   monitor_while cpython_linux fired = Some (None, fired) \<and>
   run_probes cpython_linux [healthy, flaky] fired = (None, fired) \<and>
   sleeper_wait cpython_linux (Some 2) fired = Some (None, fired) \<and>
   monitor cpython_linux fired = Some (None, fired) \<and>
   signal asleep = None \<and> \<not> sleeper asleep \<and>
   15 \<in> set (fst (arrive cpython_linux (world asleep))) \<and> 15 \<in> handlers asleep \<and>
   signal (snd (handle_shutdown cpython_linux 15 asleep)) = Some 15 \<and>
   sleeper (snd (handle_shutdown cpython_linux 15 asleep)) \<and>
   (\<exists>s'. sleeper_wait cpython_linux (Some 5) asleep = Some (None, s') \<and> signal s' \<noteq> None \<and>
         sleeper s' \<and> (\<exists>es. trace s' = trace asleep @ Block (Some 5) # es @ [Resume True]) \<and>
         monitor_while cpython_linux s' = Some (None, s')) \<and>
   sleeper_wait cpython_linux (Some 5) asleep =
     Some (None, asleep\<lparr>sleeper := True, signal := Some 15, world := (0, []), trace := [Block (Some 5), Log WARNING (caught_msg ''SIGTERM''), Log INFO (log_msg_prefix @ '': initiating shutdown ...''), Call ShutdownAction ''cleanup'', Call ShutdownAction ''faulty'', Log ERROR (failed_msg cpython_linux ShutdownAction (Exception ''RuntimeError: boom'') faulty), Call ShutdownAction ''cleanup'', Resume True]\<rparr>) \<and>
   \<not> sleeper (idle\<lparr>world := (0, [[10]])\<rparr>) \<and>
   sleeper_wait cpython_linux (Some 2) (idle\<lparr>world := (0, [[10]])\<rparr>) =
     Some (None, (idle\<lparr>world := (0, [[10]])\<rparr>)\<lparr>world := snd (arrive cpython_linux (world (idle\<lparr>world := (0, [[10]])\<rparr>))),
        trace := trace (idle\<lparr>world := (0, [[10]])\<rparr>) @ [Block (Some 2), Resume False]\<rparr>) \<and>
   signal racing = None \<and>
   call Probe healthy (arrivals cpython_linux racing) = (Returns True, racing\<lparr>sleeper := True, signal := Some 15, world := (0, []), trace := [Log WARNING (caught_msg ''SIGTERM''), Log INFO (log_msg_prefix @ '': initiating shutdown ...''), Call ShutdownAction ''cleanup'', Call ShutdownAction ''faulty'', Log ERROR (failed_msg cpython_linux ShutdownAction (Exception ''RuntimeError: boom'') faulty), Call ShutdownAction ''cleanup'', Call Probe ''healthy'']\<rparr>) \<and>
   signal (arrivals cpython_linux (racing\<lparr>sleeper := True, signal := Some 15, world := (0, []), trace := [Log WARNING (caught_msg ''SIGTERM''), Log INFO (log_msg_prefix @ '': initiating shutdown ...''), Call ShutdownAction ''cleanup'', Call ShutdownAction ''faulty'', Log ERROR (failed_msg cpython_linux ShutdownAction (Exception ''RuntimeError: boom'') faulty), Call ShutdownAction ''cleanup'', Call Probe ''healthy'']\<rparr>)) \<noteq> None \<and>
   calls_of Probe (trace (snd (run_probes cpython_linux (healthy # [flaky]) racing))) =
     calls_of Probe (trace racing) @ [ident healthy]"
proof -
  note ev = racing_def asleep_def polling_def fired_def idle_def call_def healthy_def faulty_def
    cleanup_def arrivals_def logger_def cpython_linux_arrive deliver_def handle_shutdown_def
    cpython_linux_signal_name Let_def
  let ?x = "idle\<lparr>world := (0, [[10]])\<rparr>"
  let ?s0 = "racing\<lparr>sleeper := True, signal := Some 15, world := (0, []), trace := [Log WARNING (caught_msg ''SIGTERM''), Log INFO (log_msg_prefix @ '': initiating shutdown ...''), Call ShutdownAction ''cleanup'', Call ShutdownAction ''faulty'', Log ERROR (failed_msg cpython_linux ShutdownAction (Exception ''RuntimeError: boom'') faulty), Call ShutdownAction ''cleanup'', Call Probe ''healthy'']\<rparr>"
  have a1: "signal fired \<noteq> None" by (simp add: ev)
  have a2: "sleeper fired" by (simp add: ev)
  have b1: "signal asleep = None" by (simp add: ev)
  have b2: "\<not> sleeper asleep" by (simp add: ev)
  have b3: "15 \<in> set (fst (arrive cpython_linux (world asleep)))" by (simp add: ev)
  have b4: "15 \<in> handlers asleep" by (simp add: ev)
  have b5: "Some 5 = None \<or> (\<exists>d. Some (5::int) = Some d \<and> 0 < d \<and> d \<le> TIMEOUT_MAX cpython_linux)"
    by (simp add: cpython_linux_TIMEOUT_MAX)
  have b6: "sleeper_wait cpython_linux (Some 5) asleep = Some (None, asleep\<lparr>sleeper := True, signal := Some 15, world := (0, []), trace := [Block (Some 5), Log WARNING (caught_msg ''SIGTERM''), Log INFO (log_msg_prefix @ '': initiating shutdown ...''), Call ShutdownAction ''cleanup'', Call ShutdownAction ''faulty'', Log ERROR (failed_msg cpython_linux ShutdownAction (Exception ''RuntimeError: boom'') faulty), Call ShutdownAction ''cleanup'', Resume True]\<rparr>)"
    by (simp add: ev sleeper_wait_def cpython_linux_TIMEOUT_MAX)
  have c1: "\<not> sleeper ?x" by (simp add: ev)
  have c2: "(0::int) < 2" by simp
  have c3: "2 \<le> TIMEOUT_MAX cpython_linux" by (simp add: cpython_linux_TIMEOUT_MAX)
  have c4: "\<forall>k \<in> set (fst (arrive cpython_linux (world ?x))). k \<notin> handlers ?x"
    by (simp add: ev)
  have d1: "signal racing = None" by (simp add: ev)
  have d2: "call Probe healthy (arrivals cpython_linux racing) = (Returns True, ?s0)"
    by (simp add: ev)
  have d3: "signal (arrivals cpython_linux ?s0) \<noteq> None" by (simp add: ev)
  note i1 = loop_exits_once_triggered[where s = fired and rt = cpython_linux
      and fs = "[healthy, flaky]" and t = "Some 2" and s' = fired]
  note i2 = loop_exits_once_triggered[where s = asleep and rt = cpython_linux
      and t = "Some 5" and n = 15]
  note i3 = loop_exits_once_triggered[where s = ?x and rt = cpython_linux and d = 2]
  note i4 = loop_exits_once_triggered[where s = racing and rt = cpython_linux and f = healthy
      and fs = "[flaky]" and out = "Returns True" and ?s0.0 = ?s0]
  note e1 = i1[THEN conjunct1, THEN mp, OF a1]
  note e2 = i1[THEN conjunct2, THEN conjunct1, THEN mp, OF a2]
  note e3 = i1[THEN conjunct2, THEN conjunct2, THEN conjunct1, THEN mp, OF conjI[OF a1 a2]]
  note e4 = i2[THEN conjunct2, THEN conjunct2, THEN conjunct2, THEN conjunct1, THEN mp, OF b1]
  note e5 = i1[THEN conjunct2, THEN conjunct2, THEN conjunct2, THEN conjunct2, THEN conjunct1, THEN mp, OF e1[THEN conjunct1]]
  note e6 = i2[THEN conjunct2, THEN conjunct2, THEN conjunct2, THEN conjunct2, THEN conjunct2, THEN conjunct1, THEN mp, OF conjI[OF b1 conjI[OF b2 conjI[OF b5 conjI[OF b3 b4]]]]]
  note e7 = i3[THEN conjunct2, THEN conjunct2, THEN conjunct2, THEN conjunct2, THEN conjunct2, THEN conjunct2, THEN conjunct1, THEN mp, OF conjI[OF c1 conjI[OF c2 conjI[OF c3 c4]]]]
  note e8 = i4[THEN conjunct2, THEN conjunct2, THEN conjunct2, THEN conjunct2, THEN conjunct2, THEN conjunct2, THEN conjunct2, THEN mp, OF conjI[OF d1 conjI[OF d2 d3]]]
  show ?thesis
    using a1 a2 e1 e2 e3 b1 b2 b3 b4 e4 e6 b6 c1 e7 d1 d2 d3 e8 e5
    by (intro conjI) blast+
qed

subsection \<open>What the thread leaves for \<open>join\<close>\<close>

lemma reg_keeps:
  assumes "register_shutdown_signals rt c nums s = (r, s')"
  shows "join_callables s' = join_callables s \<and> trace s' = trace s \<and> thread s' = thread s \<and>
         signal s' = signal s \<and> sleeper s' = sleeper s \<and>
         monitor_callables s' = monitor_callables s \<and> monitor_delay s' = monitor_delay s"
proof -
  let ?u = "s'\<lparr>handlers := handlers s, shutdown_signals := shutdown_signals s\<rparr>"
  have e: "?u = s" using assms by (rule reg_frame)
  have "join_callables ?u = join_callables s'" "trace ?u = trace s'" "thread ?u = thread s'"
    "signal ?u = signal s'" "sleeper ?u = sleeper s'" "monitor_callables ?u = monitor_callables s'"
    "monitor_delay ?u = monitor_delay s'"
    by simp_all
  then show ?thesis unfolding e by simp
qed

lemma monitor_keeps:
  assumes "monitor rt s = Some (r, s')"
  shows "join_callables s' = join_callables s \<and> completed (trace s') = completed (trace s) \<and>
         calls_of JoinAction (trace s') = calls_of JoinAction (trace s) \<and> thread s' = thread s"
proof -
  have k: "\<And>a b. polls a b \<Longrightarrow>
      join_callables b = join_callables a \<and> completed (trace b) = completed (trace a) \<and>
      calls_of JoinAction (trace b) = calls_of JoinAction (trace a) \<and> thread b = thread a"
    by (simp add: polls_def)
  obtain r1 s1 where w: "sleeper_wait rt (start_delay s) s = Some (r1, s1)"
    using assms by (cases "sleeper_wait rt (start_delay s) s") (auto simp: monitor_def)
  have p1: "polls s s1" using w by (rule polls_sleeper_wait)
  show ?thesis
  proof (cases "r1 = None \<and> signal s1 = None")
    case False
    then have "s' = s1" using assms w by (cases r1) (auto simp: monitor_def split: if_splits)
    then show ?thesis using k[OF p1] by simp
  next
    case True
    obtain r2 s2 where g: "(if SIGABRT rt \<notin> set (shutdown_signals s1)
                   then register_shutdown_signals rt MonitorThread [SIGABRT rt] s1
                   else (None, s1)) = (r2, s2)"
      by (cases "if SIGABRT rt \<notin> set (shutdown_signals s1)
                   then register_shutdown_signals rt MonitorThread [SIGABRT rt] s1
                   else (None, s1)")
    have f2: "join_callables s2 = join_callables s1 \<and> trace s2 = trace s1 \<and> thread s2 = thread s1"
    proof (cases "SIGABRT rt \<notin> set (shutdown_signals s1)")
      case True
      then have "register_shutdown_signals rt MonitorThread [SIGABRT rt] s1 = (r2, s2)"
        using g by simp
      then show ?thesis using reg_keeps by blast
    next
      case False
      then show ?thesis using g by simp
    qed
    have m: "monitor rt s = (case r2 of Some ex \<Rightarrow> Some (Some ex, s2) | None \<Rightarrow> monitor_while rt s2)"
      using True w g by (simp add: monitor_def split: option.splits)
    show ?thesis
    proof (cases r2)
      case (Some ex)
      then have "s' = s2" using m assms by simp
      then show ?thesis using f2 k[OF p1] by simp
    next
      case None
      then have "monitor_while rt s2 = Some (r, s')" using m assms by simp
      then have "polls s2 s'" using polls_monitor_while by fastforce
      then show ?thesis using k[of s2 s'] f2 k[OF p1] by simp
    qed
  qed
qed

lemma thread_join_keeps:
  assumes "thread_join rt s = Some (None, s1)"
  shows "thread s1 = Stopped \<and> join_callables s1 = join_callables s \<and>
         completed (trace s1) = completed (trace s) \<and>
         calls_of JoinAction (trace s1) = calls_of JoinAction (trace s)"
proof (cases "thread s")
  case Initial
  then show ?thesis using assms by (simp add: thread_join_def)
next
  case Stopped
  then show ?thesis using assms by (simp add: thread_join_def)
next
  case Started
  then have tr: "thread_run rt s = Some s1"
    using assms by (simp add: thread_join_def split: option.splits)
  then obtain r sm where m: "monitor rt s = Some (r, sm)"
    by (cases "monitor rt s") (auto simp: thread_run_def)
  note f = monitor_keeps[OF m]
  show ?thesis
  proof (cases r)
    case None
    then have "s1 = sm\<lparr>thread := Stopped\<rparr>" using tr m by (simp add: thread_run_def)
    then show ?thesis using f by simp
  next
    case (Some ex)
    then have "s1 = sm\<lparr>thread := Stopped, trace := trace sm @ [Uncaught MonitorThread ex]\<rparr>"
      using tr m by (simp add: thread_run_def)
    then show ?thesis using f by (simp add: completed_def calls_of_append)
  qed
qed

lemma init_join_callables:
  "join_callables (snd (init rt mcs scs jcs sigs d w)) = jcs"
proof -
  have k: "\<And>nums t. join_callables (snd (register_shutdown_signals rt MainThread nums t)) =
      join_callables t"
  proof -
    fix nums and t :: "'a watchdog"
    show "join_callables (snd (register_shutdown_signals rt MainThread nums t)) = join_callables t"
      using reg_keeps[of rt MainThread nums t "fst (register_shutdown_signals rt MainThread nums t)"
          "snd (register_shutdown_signals rt MainThread nums t)"] by simp
  qed
  show ?thesis
    by (simp add: init_def Let_def k del: register_shutdown_signals.simps
        split: option.splits list.splits)
qed

text \<open>
  Claim C10. Constructed without join actions, the watchdog keeps \<open>None\<close> as its list of
  join actions; no method sets it later, and the thread does not touch it. Then \<open>join\<close>,
  once the thread is over, raises the \<open>TypeError\<close> of iterating \<open>None\<close> at line 111: the
  thread has ended, the completion line of line 116 is not logged, and every further call of
  \<open>join\<close> raises in the same way. The trigger has the guard that \<open>join\<close> lacks: without
  shutdown actions it returns normally (line 62).
\<close>

theorem join_without_join_actions:
  "join_callables (snd (init rt mcs scs None sigs d w)) = None \<and>
   join_callables (register_shutdown_callables cs s) = join_callables s \<and>
   join_callables (register_monitor_callables cs s) = join_callables s \<and>
   (join_callables s = None \<and> thread_join rt s = Some (None, s1) \<longrightarrow>
      join rt s = Some (Some (Exception ''TypeError''), s1) \<and>
      thread s1 = Stopped \<and>
      completed (trace s1) = completed (trace s) \<and>
      join rt s1 = Some (Some (Exception ''TypeError''), s1)) \<and>
   (signal s = None \<and> signal_name rt c \<noteq> None \<and> shutdown_callables s = None \<longrightarrow>
      fst (handle_shutdown rt c s) = None)"
proof (intro conjI)
  show "join_callables (snd (init rt mcs scs None sigs d w)) = None"
    by (rule init_join_callables)
  show "join_callables (register_shutdown_callables cs s) = join_callables s"
    by (simp add: register_shutdown_callables_def split: option.splits list.splits)
  show "join_callables (register_monitor_callables cs s) = join_callables s"
    by (simp add: register_monitor_callables_def split: option.splits list.splits)
  show "join_callables s = None \<and> thread_join rt s = Some (None, s1) \<longrightarrow>
      join rt s = Some (Some (Exception ''TypeError''), s1) \<and>
      thread s1 = Stopped \<and>
      completed (trace s1) = completed (trace s) \<and>
      join rt s1 = Some (Some (Exception ''TypeError''), s1)"
  proof
    assume a: "join_callables s = None \<and> thread_join rt s = Some (None, s1)"
    note f = thread_join_keeps[of rt s s1]
    have j: "join_callables s1 = None" using a f by simp
    have t: "thread s1 = Stopped" using a f by simp
    have 1: "join rt s = Some (Some (Exception ''TypeError''), s1)"
      using a j by (simp add: join_def)
    have "thread_join rt s1 = Some (None, s1)" using t by (simp add: thread_join_def)
    then have 2: "join rt s1 = Some (Some (Exception ''TypeError''), s1)"
      using j by (simp add: join_def)
    show "join rt s = Some (Some (Exception ''TypeError''), s1) \<and>
      thread s1 = Stopped \<and>
      completed (trace s1) = completed (trace s) \<and>
      join rt s1 = Some (Some (Exception ''TypeError''), s1)"
      using 1 2 t a f by simp
  qed
  show "signal s = None \<and> signal_name rt c \<noteq> None \<and> shutdown_callables s = None \<longrightarrow>
      fst (handle_shutdown rt c s) = None"
    by (auto simp: handle_shutdown_fresh)
qed

theorem join_without_join_actions_witness:
  "join_callables (snd (init cpython_linux None None None (Some [15, 2]) 2 (0, []))) = None \<and>
   join_callables unjoined = None \<and>
   thread_join cpython_linux unjoined = Some (None, unjoined\<lparr>thread := Stopped, sleeper := True, signal := Some 15, world := (0, []), trace := [Block (Some 5), Log WARNING (caught_msg ''SIGTERM''), Log INFO (log_msg_prefix @ '': initiating shutdown ...''), Call ShutdownAction ''cleanup'', Call ShutdownAction ''faulty'', Log ERROR (failed_msg cpython_linux ShutdownAction (Exception ''RuntimeError: boom'') faulty), Call ShutdownAction ''cleanup'', Resume True]\<rparr>) \<and>
   join cpython_linux unjoined = Some (Some (Exception ''TypeError''), unjoined\<lparr>thread := Stopped, sleeper := True, signal := Some 15, world := (0, []), trace := [Block (Some 5), Log WARNING (caught_msg ''SIGTERM''), Log INFO (log_msg_prefix @ '': initiating shutdown ...''), Call ShutdownAction ''cleanup'', Call ShutdownAction ''faulty'', Log ERROR (failed_msg cpython_linux ShutdownAction (Exception ''RuntimeError: boom'') faulty), Call ShutdownAction ''cleanup'', Resume True]\<rparr>) \<and>
   thread (unjoined\<lparr>thread := Stopped, sleeper := True, signal := Some 15, world := (0, []), trace := [Block (Some 5), Log WARNING (caught_msg ''SIGTERM''), Log INFO (log_msg_prefix @ '': initiating shutdown ...''), Call ShutdownAction ''cleanup'', Call ShutdownAction ''faulty'', Log ERROR (failed_msg cpython_linux ShutdownAction (Exception ''RuntimeError: boom'') faulty), Call ShutdownAction ''cleanup'', Resume True]\<rparr>) = Stopped \<and>
   completed (trace (unjoined\<lparr>thread := Stopped, sleeper := True, signal := Some 15, world := (0, []), trace := [Block (Some 5), Log WARNING (caught_msg ''SIGTERM''), Log INFO (log_msg_prefix @ '': initiating shutdown ...''), Call ShutdownAction ''cleanup'', Call ShutdownAction ''faulty'', Log ERROR (failed_msg cpython_linux ShutdownAction (Exception ''RuntimeError: boom'') faulty), Call ShutdownAction ''cleanup'', Resume True]\<rparr>)) = completed (trace unjoined) \<and>
   \<not> completed (trace (unjoined\<lparr>thread := Stopped, sleeper := True, signal := Some 15, world := (0, []), trace := [Block (Some 5), Log WARNING (caught_msg ''SIGTERM''), Log INFO (log_msg_prefix @ '': initiating shutdown ...''), Call ShutdownAction ''cleanup'', Call ShutdownAction ''faulty'', Log ERROR (failed_msg cpython_linux ShutdownAction (Exception ''RuntimeError: boom'') faulty), Call ShutdownAction ''cleanup'', Resume True]\<rparr>)) \<and>
   join cpython_linux (unjoined\<lparr>thread := Stopped, sleeper := True, signal := Some 15, world := (0, []), trace := [Block (Some 5), Log WARNING (caught_msg ''SIGTERM''), Log INFO (log_msg_prefix @ '': initiating shutdown ...''), Call ShutdownAction ''cleanup'', Call ShutdownAction ''faulty'', Log ERROR (failed_msg cpython_linux ShutdownAction (Exception ''RuntimeError: boom'') faulty), Call ShutdownAction ''cleanup'', Resume True]\<rparr>) = Some (Some (Exception ''TypeError''), unjoined\<lparr>thread := Stopped, sleeper := True, signal := Some 15, world := (0, []), trace := [Block (Some 5), Log WARNING (caught_msg ''SIGTERM''), Log INFO (log_msg_prefix @ '': initiating shutdown ...''), Call ShutdownAction ''cleanup'', Call ShutdownAction ''faulty'', Log ERROR (failed_msg cpython_linux ShutdownAction (Exception ''RuntimeError: boom'') faulty), Call ShutdownAction ''cleanup'', Resume True]\<rparr>) \<and>
   signal (idle\<lparr>shutdown_callables := None\<rparr>) = None \<and> signal_name cpython_linux 15 \<noteq> None \<and>
   shutdown_callables (idle\<lparr>shutdown_callables := None\<rparr>) = None \<and>
   fst (handle_shutdown cpython_linux 15 (idle\<lparr>shutdown_callables := None\<rparr>)) = None"
proof -
  note ev = unjoined_def asleep_def idle_def call_def faulty_def cleanup_def arrivals_def
    logger_def cpython_linux_arrive deliver_def handle_shutdown_def cpython_linux_signal_name Let_def
  let ?s1 = "unjoined\<lparr>thread := Stopped, sleeper := True, signal := Some 15, world := (0, []), trace := [Block (Some 5), Log WARNING (caught_msg ''SIGTERM''), Log INFO (log_msg_prefix @ '': initiating shutdown ...''), Call ShutdownAction ''cleanup'', Call ShutdownAction ''faulty'', Log ERROR (failed_msg cpython_linux ShutdownAction (Exception ''RuntimeError: boom'') faulty), Call ShutdownAction ''cleanup'', Resume True]\<rparr>"
  let ?w = "?s1\<lparr>thread := Started\<rparr>"
  have a: "join_callables unjoined = None" by (simp add: ev)
  have w: "sleeper_wait cpython_linux (start_delay unjoined) unjoined = Some (None, ?w)"
    by (simp add: ev sleeper_wait_def cpython_linux_TIMEOUT_MAX)
  have m: "monitor cpython_linux unjoined = Some (None, ?w)"
    unfolding monitor_def w by simp
  have r: "thread_run cpython_linux unjoined = Some ?s1"
    unfolding thread_run_def m by simp
  have b: "thread_join cpython_linux unjoined = Some (None, ?s1)"
    unfolding thread_join_def r by (simp add: ev)
  have c: "\<not> completed (trace ?s1)"
    by (simp add: completed_def log_msg_prefix_def caught_msg_def)
  have d1: "signal (idle\<lparr>shutdown_callables := None\<rparr>) = None" by (simp add: ev)
  have d2: "signal_name cpython_linux 15 \<noteq> None" by (simp add: ev)
  have d3: "shutdown_callables (idle\<lparr>shutdown_callables := None\<rparr>) = None" by simp
  note i1 = join_without_join_actions[where rt = cpython_linux and mcs = None and scs = None
      and sigs = "Some [15, 2]" and d = 2 and w = "(0, [])" and s = unjoined and ?s1.0 = ?s1]
  note i2 = join_without_join_actions[where rt = cpython_linux and s = "idle\<lparr>shutdown_callables := None\<rparr>" and c = 15]
  note e1 = i1[THEN conjunct1]
  note e4 = i1[THEN conjunct2, THEN conjunct2, THEN conjunct2, THEN conjunct1, THEN mp,
      OF conjI[OF a b]]
  note e5 = i2[THEN conjunct2, THEN conjunct2, THEN conjunct2, THEN conjunct2, THEN mp,
      OF conjI[OF d1 conjI[OF d2 d3]]]
  show ?thesis
    using e1 a b e4 c d1 d2 d3 e5
    by (intro conjI) blast+
qed

end
